theory Spec2Isabelle
  imports Main "HOL-Library.AList"
begin

section \<open>Python values\<close>

text \<open>
  A Python \<open>str\<close> is a sequence of Unicode code points, modelled as a list of naturals.
  A \<open>bytes\<close> object is a list of naturals below 256.  String literals of the source are
  written \<open>py ''...''\<close>.
\<close>

type_synonym pystr = "nat list"
type_synonym pybytes = "nat list"

abbreviation (input) py :: "string \<Rightarrow> pystr" where
  "py s \<equiv> map of_char s"

text \<open>
  The values that flow through the dictionaries of the source and that \<open>json.loads\<close> can
  return.  A \<open>dict\<close> with string keys is an association list in insertion order, its keys
  distinct.  A float is kept as the text it was read from.
\<close>

datatype pyval =
    PNone
  | PBool bool
  | PInt int
  | PFloat pystr
  | PStr pystr
  | PList "pyval list"
  | PDict "(pystr \<times> pyval) list"

type_synonym pydict = "(pystr \<times> pyval) list"

text \<open>Exceptions, each carrying \<open>str(e)\<close>.\<close>

datatype exn =
    KeyError pystr
  | AttributeError pystr
  | UnboundLocalError pystr
  | ValueError pystr
  | OtherError pystr

fun str_exn :: "exn \<Rightarrow> pystr" where
  "str_exn (KeyError m) = m"
| "str_exn (AttributeError m) = m"
| "str_exn (UnboundLocalError m) = m"
| "str_exn (ValueError m) = m"
| "str_exn (OtherError m) = m"

text \<open>Truth value testing (\<open>not x\<close>, \<open>if x\<close>).\<close>

fun truthy :: "pyval \<Rightarrow> bool" where
  "truthy PNone = False"
| "truthy (PBool b) = b"
| "truthy (PInt i) = (i \<noteq> 0)"
| "truthy (PFloat f) = True"
| "truthy (PStr s) = (s \<noteq> [])"
| "truthy (PList xs) = (xs \<noteq> [])"
| "truthy (PDict kvs) = (kvs \<noteq> [])"

text \<open>\<open>d.get(k, default)\<close> and \<open>d.update({...})\<close>.\<close>

definition dict_get :: "pydict \<Rightarrow> pystr \<Rightarrow> pyval \<Rightarrow> pyval" where
  "dict_get d k dflt = (case map_of d k of None \<Rightarrow> dflt | Some v \<Rightarrow> v)"

fun dict_update :: "pydict \<Rightarrow> pydict \<Rightarrow> pydict" where
  "dict_update d [] = d"
| "dict_update d ((k, v) # kvs) = dict_update (AList.update k v d) kvs"


section \<open>The validation pipeline of \<open>SafeCryptoComAgent\<close>\<close>

text \<open>
  \<open>integrations/crypto_com_agent.py\<close>.  The agent holds \<open>self.llm_judge\<close> and
  \<open>self.policy_engine\<close>, each an object or \<open>None\<close>; only their truth value is read by the
  pipeline.  The three stage methods are called through \<open>self\<close>; they are parameters of the
  model, so that a statement about the pipeline holds for every behaviour of a stage,
  raising included.
\<close>

record agent =
  llm_judge :: bool
  policy_engine :: bool

record stage_result =
  passed :: bool
  reason :: pystr

type_synonym stage_fn = "pydict \<Rightarrow> exn + stage_result"

record stages =
  stage1_llm_judge :: stage_fn
  stage2_policy :: stage_fn
  stage3_honeypot :: stage_fn

datatype stage = LLM_Intent_Judge | Policy_Validation | Honeypot_Detection | LLM_Analysis

fun stage_name :: "stage \<Rightarrow> pystr" where
  "stage_name LLM_Intent_Judge = py ''LLM Intent Judge''"
| "stage_name Policy_Validation = py ''Policy Validation''"
| "stage_name Honeypot_Detection = py ''Honeypot Detection''"
| "stage_name LLM_Analysis = py ''LLM Analysis''"

text \<open>
  The dictionary returned by the pipeline: \<open>{'approved': True, 'reason': r}\<close> or
  \<open>{'approved': False, 'reason': r, 'stage_failed': s}\<close>.
\<close>

datatype validation =
    Approved pystr
  | Blocked pystr pystr

text \<open>
  The pipeline returns the stages it executed, in order, beside its result.  A stage
  method is executed when it is called.  Stage 4 has no method: its body is the two
  console lines, and it is executed when control reaches them.
\<close>

definition run_stage4 :: "stage list \<Rightarrow> stage list \<times> (exn + validation)" where
  "run_stage4 log =
     (log @ [LLM_Analysis], Inr (Approved (py ''All validation stages passed'')))"

definition run_stage3 ::
  "stages \<Rightarrow> pydict \<Rightarrow> stage list \<Rightarrow> stage list \<times> (exn + validation)" where
  "run_stage3 st intent log =
     (case map_of intent (py ''action'') of
        None \<Rightarrow> (log, Inl (KeyError (py ''action'')))
      | Some a \<Rightarrow>
          if a = PStr (py ''swap'') \<or> a = PStr (py ''buy'') then
            (case stage3_honeypot st intent of
               Inl e \<Rightarrow> (log @ [Honeypot_Detection], Inl e)
             | Inr honeypot_result \<Rightarrow>
                 if \<not> passed honeypot_result then
                   (log @ [Honeypot_Detection],
                    Inr (Blocked (reason honeypot_result) (py ''Honeypot Detection'')))
                 else run_stage4 (log @ [Honeypot_Detection]))
          else run_stage4 log)"

definition run_stage2 ::
  "agent \<Rightarrow> stages \<Rightarrow> pydict \<Rightarrow> stage list \<Rightarrow> stage list \<times> (exn + validation)" where
  "run_stage2 self st intent log =
     (if policy_engine self then
        (case stage2_policy st intent of
           Inl e \<Rightarrow> (log @ [Policy_Validation], Inl e)
         | Inr policy_result \<Rightarrow>
             if \<not> passed policy_result then
               (log @ [Policy_Validation],
                Inr (Blocked (reason policy_result) (py ''Policy Validation'')))
             else run_stage3 st intent (log @ [Policy_Validation]))
      else run_stage3 st intent log)"

definition validate_with_agentshield ::
  "agent \<Rightarrow> stages \<Rightarrow> pydict \<Rightarrow> stage list \<times> (exn + validation)" where
  "validate_with_agentshield self st intent =
     (if llm_judge self then
        (case stage1_llm_judge st intent of
           Inl e \<Rightarrow> ([LLM_Intent_Judge], Inl e)
         | Inr llm_result \<Rightarrow>
             if \<not> passed llm_result then
               ([LLM_Intent_Judge],
                Inr (Blocked (reason llm_result) (py ''LLM Intent Judge'')))
             else run_stage2 self st intent [LLM_Intent_Judge])
      else run_stage2 self st intent [])"

text \<open>The method a stage of the log called, and whether that call reported failure.\<close>

fun stage_call :: "stages \<Rightarrow> stage \<Rightarrow> pydict \<Rightarrow> (exn + stage_result) option" where
  "stage_call st LLM_Intent_Judge intent = Some (stage1_llm_judge st intent)"
| "stage_call st Policy_Validation intent = Some (stage2_policy st intent)"
| "stage_call st Honeypot_Detection intent = Some (stage3_honeypot st intent)"
| "stage_call st LLM_Analysis intent = None"

definition stage_failed :: "stages \<Rightarrow> stage \<Rightarrow> pydict \<Rightarrow> bool" where
  "stage_failed st s intent =
     (case stage_call st s intent of
        Some (Inr r) \<Rightarrow> \<not> passed r
      | _ \<Rightarrow> False)"

definition failure_reason :: "stages \<Rightarrow> stage \<Rightarrow> pydict \<Rightarrow> pystr" where
  "failure_reason st s intent =
     (case stage_call st s intent of
        Some (Inr r) \<Rightarrow> reason r
      | _ \<Rightarrow> [])"

fun stage_index :: "stage \<Rightarrow> nat" where
  "stage_index LLM_Intent_Judge = 1"
| "stage_index Policy_Validation = 2"
| "stage_index Honeypot_Detection = 3"
| "stage_index LLM_Analysis = 4"

text \<open>A stage that is switched off, or whose method returns \<open>passed\<close>, lets the run go on.\<close>

definition stage_passes :: "bool \<Rightarrow> stage_fn \<Rightarrow> pydict \<Rightarrow> bool" where
  "stage_passes enabled f intent =
     (if enabled then (case f intent of Inr r \<Rightarrow> passed r | Inl e \<Rightarrow> False) else True)"

text \<open>A run in which the policy stage rejects a swap.\<close>

definition demo_stages :: stages where
  "demo_stages =
     \<lparr>stage1_llm_judge = (\<lambda>intent. Inr \<lparr>passed = True, reason = py ''Intent is safe''\<rparr>),
      stage2_policy = (\<lambda>intent. Inr \<lparr>passed = False, reason = py ''exceeds policy limit''\<rparr>),
      stage3_honeypot = (\<lambda>intent. Inr \<lparr>passed = True, reason = py ''Token is safe''\<rparr>)\<rparr>"

text \<open>\<open>str(n)\<close> for an integer: decimal digits, a minus sign for a negative number.\<close>

fun dec_digits :: "nat \<Rightarrow> pystr" where
  "dec_digits n = (if n < 10 then [48 + n] else dec_digits (n div 10) @ [48 + n mod 10])"

declare dec_digits.simps [simp del]

definition str_int :: "int \<Rightarrow> pystr" where
  "str_int i = (if i < 0 then 45 # dec_digits (nat (- i)) else dec_digits (nat i))"

text \<open>
  \<open>s.lower()\<close> on ASCII letters.  Python also lowers cased letters outside ASCII; none
  of them becomes a hexadecimal digit, an \<open>x\<close> or a letter of a chain name of the source,
  so the comparisons of the source that follow a \<open>lower()\<close> are decided the same way.
\<close>

definition lower_cp :: "nat \<Rightarrow> nat" where
  "lower_cp c = (if 65 \<le> c \<and> c \<le> 90 then c + 32 else c)"

definition str_lower :: "pystr \<Rightarrow> pystr" where
  "str_lower s = map lower_cp s"

section \<open>The swap probe\<close>

text \<open>
  \<open>simulator.py\<close>.  The chain client \<open>Web3(Web3.HTTPProvider(rpc_url))\<close> is a record of
  the answers of the calls the probe makes; each call returns or raises.
\<close>

record w3_client =
  is_connected :: "exn + bool"
  to_checksum_address :: "pystr \<Rightarrow> exn + pystr"
  get_code :: "pystr \<Rightarrow> exn + pybytes"
  contract :: "pystr \<Rightarrow> exn + unit"
  call_name :: "exn + pyval"
  call_symbol :: "exn + pyval"
  call_totalSupply :: "exn + int"

text \<open>The two outer \<open>except Exception\<close> handlers.\<close>

definition simulation_failed :: "exn \<Rightarrow> pystr \<Rightarrow> pydict" where
  "simulation_failed e token_address =
     [(py ''can_buy'', PNone),
      (py ''can_sell'', PNone),
      (py ''error'', PStr (py ''Simulation failed: '' @ str_exn e)),
      (py ''token_address'', PStr token_address)]"

definition interaction_failed :: "exn \<Rightarrow> pystr \<Rightarrow> pydict" where
  "interaction_failed e token_address =
     [(py ''can_buy'', PNone),
      (py ''can_sell'', PNone),
      (py ''error'', PStr (py ''Contract interaction failed: '' @ str_exn e)),
      (py ''token_address'', PStr token_address)]"

text \<open>
  The innermost \<open>try\<close>: the three metadata calls in order.  It leaves the locals
  \<open>token_info\<close> and \<open>total_supply\<close>; \<open>total_supply\<close> is bound only when all three calls
  returned, so it is an option.
\<close>

definition read_token_info :: "w3_client \<Rightarrow> pystr \<Rightarrow> pydict \<times> int option" where
  "read_token_info w3 token_address =
     (let unreadable = (\<lambda>e.
            ([(py ''error'', PStr (py ''Could not read token info: '' @ str_exn e)),
              (py ''address'', PStr token_address)], None))
      in case call_name w3 of
           Inl e \<Rightarrow> unreadable e
         | Inr name \<Rightarrow>
             (case call_symbol w3 of
                Inl e \<Rightarrow> unreadable e
              | Inr symbol \<Rightarrow>
                  (case call_totalSupply w3 of
                     Inl e \<Rightarrow> unreadable e
                   | Inr total_supply \<Rightarrow>
                       ([(py ''name'', name),
                         (py ''symbol'', symbol),
                         (py ''total_supply'', PStr (str_int total_supply)),
                         (py ''address'', PStr token_address)], Some total_supply))))"

definition known_honeypots :: "pystr list" where
  "known_honeypots = [str_lower (py ''0x6001B76e8CeA99a749F591ed6E1cE7a704CF231b'')]"

text \<open>
  Reading an unbound local raises \<open>UnboundLocalError\<close> (the message is that of
  Python 3.11 and later).
\<close>

definition unbound_total_supply :: exn where
  "unbound_total_supply = UnboundLocalError
     (py ''cannot access local variable 'total_supply' where it is not associated with a value'')"

text \<open>The body of the \<open>try\<close> that starts with \<open>w3.eth.contract\<close>.\<close>

definition inspect_contract :: "w3_client \<Rightarrow> pystr \<Rightarrow> exn + pydict" where
  "inspect_contract w3 token_address =
     (case to_checksum_address w3 token_address of
        Inl e \<Rightarrow> Inl e
      | Inr address \<Rightarrow>
          (case contract w3 address of
             Inl e \<Rightarrow> Inl e
           | Inr c \<Rightarrow>
               (case read_token_info w3 token_address of
                  (token_info, None) \<Rightarrow> Inl unbound_total_supply
                | (token_info, Some total_supply) \<Rightarrow>
                    if total_supply = 0 then
                      Inr (dict_update token_info
                        [(py ''can_buy'', PBool False),
                         (py ''can_sell'', PBool False),
                         (py ''reason'', PStr (py ''Token has zero supply'')),
                         (py ''risk'', PStr (py ''HIGH''))])
                    else if str_lower token_address \<in> set known_honeypots then
                      Inr (dict_update token_info
                        [(py ''can_buy'', PBool True),
                         (py ''can_sell'', PBool False),
                         (py ''reason'', PStr (py ''Token has transfer restrictions (honeypot)'')),
                         (py ''risk'', PStr (py ''HIGH''))])
                    else
                      Inr (dict_update token_info
                        [(py ''can_buy'', PBool True),
                         (py ''can_sell'', PBool True),
                         (py ''reason'', PStr (py ''Token appears to be standard ERC20'')),
                         (py ''risk'', PStr (py ''LOW''))]))))"

definition simulate_swap ::
  "(pystr \<Rightarrow> w3_client) \<Rightarrow> pystr \<Rightarrow> pystr \<Rightarrow> pystr option \<Rightarrow> pydict" where
  "simulate_swap web3 token_address rpc_url amount =
     (let w3 = web3 rpc_url in
      case is_connected w3 of
        Inl e \<Rightarrow> simulation_failed e token_address
      | Inr connected \<Rightarrow>
          if \<not> connected then
            [(py ''can_buy'', PNone),
             (py ''can_sell'', PNone),
             (py ''error'', PStr (py ''Cannot connect to RPC'')),
             (py ''rpc_url'', PStr rpc_url)]
          else
            (case to_checksum_address w3 token_address of
               Inl e \<Rightarrow> simulation_failed e token_address
             | Inr address \<Rightarrow>
                 (case get_code w3 address of
                    Inl e \<Rightarrow> simulation_failed e token_address
                  | Inr code \<Rightarrow>
                      if code = [] then
                        [(py ''can_buy'', PBool False),
                         (py ''can_sell'', PBool False),
                         (py ''error'', PStr (py ''Not a contract address'')),
                         (py ''token_address'', PStr token_address)]
                      else
                        (case inspect_contract w3 token_address of
                           Inl e \<Rightarrow> interaction_failed e token_address
                         | Inr result \<Rightarrow> result))))"

definition metadata_throws :: "w3_client \<Rightarrow> bool" where
  "metadata_throws w3 =
     (case call_name w3 of
        Inl e \<Rightarrow> True
      | Inr n \<Rightarrow>
          (case call_symbol w3 of
             Inl e \<Rightarrow> True
           | Inr s \<Rightarrow> (case call_totalSupply w3 of Inl e \<Rightarrow> True | Inr t \<Rightarrow> False)))"

definition code_present :: "w3_client \<Rightarrow> pystr \<Rightarrow> bool" where
  "code_present w3 token_address =
     (is_connected w3 = Inr True \<and>
      (case to_checksum_address w3 token_address of
         Inl e \<Rightarrow> False
       | Inr address \<Rightarrow>
           (case get_code w3 address of Inl e \<Rightarrow> False | Inr code \<Rightarrow> code \<noteq> []) \<and>
           (case contract w3 address of Inl e \<Rightarrow> False | Inr c \<Rightarrow> True)))"

section \<open>The token validation endpoint\<close>

text \<open>
  \<open>agentshield-api/main.py\<close>.  The endpoint reads the process environment, the address
  check of web3 and the chain client; the import of the simulator and of web3 at the top of
  the handler either succeeds or raises \<open>ImportError\<close>.
\<close>

record world =
  web3 :: "pystr \<Rightarrow> w3_client"
  environ :: "pystr \<Rightarrow> pystr option"
  is_address :: "pystr \<Rightarrow> bool"
  import_error :: "pystr option"

record token_validation_request =
  req_token_address :: pystr
  req_chain :: pystr
  req_amount :: "pystr option"

record validation_response =
  is_safe :: bool
  risk_level :: pystr
  resp_reason :: pystr
  details :: pydict
  can_buy :: pyval
  can_sell :: pyval

datatype http_exception = HTTPException int pystr

definition os_getenv :: "(pystr \<Rightarrow> pystr option) \<Rightarrow> pystr \<Rightarrow> pystr \<Rightarrow> pystr" where
  "os_getenv env name dflt = (case env name of None \<Rightarrow> dflt | Some v \<Rightarrow> v)"

definition chain_map :: "(pystr \<times> pystr) list" where
  "chain_map =
     [(py ''ethereum'', py ''ethereum''),
      (py ''eth'', py ''ethereum''),
      (py ''base'', py ''base''),
      (py ''cronos'', py ''cronos''),
      (py ''cronos-testnet'', py ''cronos-testnet''),
      (py ''arbitrum'', py ''arbitrum''),
      (py ''arb'', py ''arbitrum''),
      (py ''polygon'', py ''polygon''),
      (py ''matic'', py ''polygon'')]"

definition rpc_urls :: "(pystr \<Rightarrow> pystr option) \<Rightarrow> (pystr \<times> pystr) list" where
  "rpc_urls env =
     [(py ''ethereum'', os_getenv env (py ''ETHEREUM_RPC'') (py ''https://eth.llamarpc.com'')),
      (py ''base'', os_getenv env (py ''BASE_RPC'') (py ''https://mainnet.base.org'')),
      (py ''cronos'', os_getenv env (py ''CRONOS_RPC'') (py ''https://evm.cronos.org'')),
      (py ''cronos-testnet'',
         os_getenv env (py ''CRONOS_TESTNET_RPC'') (py ''https://evm-t3.cronos.org'')),
      (py ''arbitrum'', os_getenv env (py ''ARBITRUM_RPC'') (py ''https://arb1.arbitrum.io/rpc'')),
      (py ''polygon'', os_getenv env (py ''POLYGON_RPC'') (py ''https://polygon-rpc.com''))]"

definition normalized_chain :: "pystr \<Rightarrow> pystr" where
  "normalized_chain c =
     (case map_of chain_map (str_lower c) of None \<Rightarrow> str_lower c | Some n \<Rightarrow> n)"

text \<open>\<open>rpc_urls.get(normalized_chain)\<close>: \<open>None\<close> when the chain has no entry.\<close>

definition rpc_url_for :: "world \<Rightarrow> pystr \<Rightarrow> pystr option" where
  "rpc_url_for w c = map_of (rpc_urls (environ w)) (normalized_chain c)"

text \<open>
  The handler.  With the import done, no call of the body raises: \<open>simulate_swap\<close> catches
  every exception itself, and the values it stores under \<open>can_buy\<close> and \<open>can_sell\<close> are
  \<open>None\<close>, \<open>True\<close> or \<open>False\<close>, which the response model accepts as they are.
\<close>

definition validate_token ::
  "world \<Rightarrow> token_validation_request \<Rightarrow> http_exception + validation_response" where
  "validate_token w req =
     (case import_error w of
        Some e \<Rightarrow> Inl (HTTPException 500 (py ''AgentShield module not available: '' @ e))
      | None \<Rightarrow>
          (case rpc_url_for w (req_chain req) of
             None \<Rightarrow>
               Inr \<lparr>is_safe = True, risk_level = py ''UNKNOWN'',
                    resp_reason = py ''Chain '' @ req_chain req @ py '' not supported for validation'',
                    details = [(py ''chain'', PStr (req_chain req)), (py ''supported'', PBool False)],
                    can_buy = PNone, can_sell = PNone\<rparr>
           | Some rpc_url \<Rightarrow>
               if rpc_url = [] then
                 Inr \<lparr>is_safe = True, risk_level = py ''UNKNOWN'',
                      resp_reason =
                        py ''Chain '' @ req_chain req @ py '' not supported for validation'',
                      details =
                        [(py ''chain'', PStr (req_chain req)), (py ''supported'', PBool False)],
                      can_buy = PNone, can_sell = PNone\<rparr>
               else if \<not> is_address w (req_token_address req) then
                 Inr \<lparr>is_safe = False, risk_level = py ''HIGH'',
                      resp_reason = py ''Invalid token address format'',
                      details =
                        [(py ''token_address'', PStr (req_token_address req)),
                         (py ''valid'', PBool False)],
                      can_buy = PNone, can_sell = PNone\<rparr>
               else
                 (let result = simulate_swap (web3 w) (req_token_address req) rpc_url (req_amount req);
                      can_buy = dict_get result (py ''can_buy'') (PBool True);
                      can_sell = dict_get result (py ''can_sell'') (PBool True)
                  in if \<not> truthy can_sell then
                       Inr \<lparr>is_safe = False, risk_level = py ''HIGH'',
                            resp_reason = py ''Token cannot be sold (honeypot detected)'',
                            details = result, can_buy = can_buy, can_sell = can_sell\<rparr>
                     else if \<not> truthy can_buy then
                       Inr \<lparr>is_safe = False, risk_level = py ''HIGH'',
                            resp_reason = py ''Token cannot be bought'',
                            details = result, can_buy = can_buy, can_sell = can_sell\<rparr>
                     else if truthy (dict_get result (py ''liquidity_warning'') PNone) then
                       Inr \<lparr>is_safe = True, risk_level = py ''MEDIUM'',
                            resp_reason = py ''Low liquidity detected - proceed with caution'',
                            details = result, can_buy = can_buy, can_sell = can_sell\<rparr>
                     else if truthy (dict_get result (py ''high_slippage'') PNone) then
                       Inr \<lparr>is_safe = True, risk_level = py ''MEDIUM'',
                            resp_reason = py ''High slippage detected - large price impact'',
                            details = result, can_buy = can_buy, can_sell = can_sell\<rparr>
                     else
                       Inr \<lparr>is_safe = True, risk_level = py ''LOW'',
                            resp_reason = py ''Token passed all safety checks'',
                            details = result, can_buy = can_buy, can_sell = can_sell\<rparr>)))"

text \<open>Worlds for the examples: an endpoint that is down, and a token whose \<open>name()\<close> reverts.\<close>

definition unreachable_client :: w3_client where
  "unreachable_client =
     \<lparr>is_connected = Inr False,
      to_checksum_address = (\<lambda>a. Inr a),
      get_code = (\<lambda>a. Inr []),
      contract = (\<lambda>a. Inr ()),
      call_name = Inl (OtherError (py ''connection refused'')),
      call_symbol = Inl (OtherError (py ''connection refused'')),
      call_totalSupply = Inl (OtherError (py ''connection refused''))\<rparr>"

definition unreadable_client :: w3_client where
  "unreadable_client =
     \<lparr>is_connected = Inr True,
      to_checksum_address = (\<lambda>a. Inr a),
      get_code = (\<lambda>a. Inr [96, 128, 96, 64]),
      contract = (\<lambda>a. Inr ()),
      call_name = Inl (OtherError (py ''execution reverted'')),
      call_symbol = Inr (PStr (py ''TKN'')),
      call_totalSupply = Inr 1000000\<rparr>"

definition down_world :: world where
  "down_world =
     \<lparr>web3 = (\<lambda>url. unreachable_client),
      environ = (\<lambda>name. None),
      is_address = (\<lambda>a. length a = 42),
      import_error = None\<rparr>"

definition demo_token :: pystr where
  "demo_token = py ''0xc01efAaF7C5C61bEbFAeb358E1161b537b8bC0e0''"

definition demo_request :: token_validation_request where
  "demo_request =
     \<lparr>req_token_address = demo_token, req_chain = py ''Cronos'', req_amount = Some (py ''1.0'')\<rparr>"

section \<open>The codec: base64 and UTF-8\<close>

datatype decode_failure = NotAscii | BinasciiError | UnicodeDecodeError | JSONDecodeError

definition b64_char :: "nat \<Rightarrow> nat" where
  "b64_char i =
     (if i < 26 then 65 + i
      else if i < 52 then 71 + i
      else if i < 62 then i - 4
      else if i = 62 then 43
      else 47)"

fun b64encode :: "pybytes \<Rightarrow> pystr" where
  "b64encode [] = []"
| "b64encode [a] = [b64_char (a div 4), b64_char (a mod 4 * 16), 61, 61]"
| "b64encode [a, b] =
     [b64_char (a div 4), b64_char (a mod 4 * 16 + b div 16), b64_char (b mod 16 * 4), 61]"
| "b64encode (a # b # c # rest) =
     b64_char (a div 4) # b64_char (a mod 4 * 16 + b div 16) #
     b64_char (b mod 16 * 4 + c div 64) # b64_char (c mod 64) # b64encode rest"

definition b64_value :: "nat \<Rightarrow> nat option" where
  "b64_value c =
     (if 65 \<le> c \<and> c \<le> 90 then Some (c - 65)
      else if 97 \<le> c \<and> c \<le> 122 then Some (c - 71)
      else if 48 \<le> c \<and> c \<le> 57 then Some (c + 4)
      else if c = 43 then Some 62
      else if c = 47 then Some 63
      else None)"

fun a2b_base64 :: "nat \<Rightarrow> nat \<Rightarrow> nat \<Rightarrow> pybytes \<Rightarrow> pybytes \<Rightarrow> decode_failure + pybytes" where
  "a2b_base64 quad_pos leftchar pads out [] =
     (if quad_pos = 0 then Inr out else Inl BinasciiError)"
| "a2b_base64 quad_pos leftchar pads out (this_ch # rest) =
     (if this_ch = 61 then
        (if quad_pos \<ge> 2 \<and> quad_pos + (pads + 1) \<ge> 4 then Inr out
         else a2b_base64 quad_pos leftchar (if quad_pos \<ge> 2 then pads + 1 else pads) out rest)
      else
        (case b64_value this_ch of
           None \<Rightarrow> a2b_base64 quad_pos leftchar pads out rest
         | Some v \<Rightarrow>
             if quad_pos = 0 then a2b_base64 1 v 0 out rest
             else if quad_pos = 1 then
               a2b_base64 2 (v mod 16) 0 (out @ [(leftchar * 4 + v div 16) mod 256]) rest
             else if quad_pos = 2 then
               a2b_base64 3 (v mod 4) 0 (out @ [(leftchar * 16 + v div 4) mod 256]) rest
             else a2b_base64 0 0 0 (out @ [(leftchar * 64 + v) mod 256]) rest))"

definition b64decode :: "pystr \<Rightarrow> decode_failure + pybytes" where
  "b64decode s =
     (if \<exists>c \<in> set s. c \<ge> 128 then Inl NotAscii else a2b_base64 0 0 0 [] s)"

text \<open>UTF-8\<close>

definition utf8_encode_cp :: "nat \<Rightarrow> pybytes option" where
  "utf8_encode_cp c =
     (if c < 0x80 then Some [c]
      else if c < 0x800 then Some [0xC0 + c div 64, 0x80 + c mod 64]
      else if 0xD800 \<le> c \<and> c \<le> 0xDFFF then None
      else if c < 0x10000 then Some [0xE0 + c div 4096, 0x80 + c div 64 mod 64, 0x80 + c mod 64]
      else if c < 0x110000 then
        Some [0xF0 + c div 262144, 0x80 + c div 4096 mod 64, 0x80 + c div 64 mod 64, 0x80 + c mod 64]
      else None)"

fun utf8_encode :: "pystr \<Rightarrow> pybytes option" where
  "utf8_encode [] = Some []"
| "utf8_encode (c # cs) =
     (case utf8_encode_cp c of
        None \<Rightarrow> None
      | Some bs \<Rightarrow> (case utf8_encode cs of None \<Rightarrow> None | Some r \<Rightarrow> Some (bs @ r)))"

definition cont :: "nat \<Rightarrow> bool" where
  "cont b = (0x80 \<le> b \<and> b \<le> 0xBF)"

fun utf8_decode :: "pybytes \<Rightarrow> pystr option" where
  "utf8_decode [] = Some []"
| "utf8_decode (b0 # bs) =
     (if b0 < 0x80 then map_option ((#) b0) (utf8_decode bs)
      else if 0xC2 \<le> b0 \<and> b0 \<le> 0xDF then
        (case bs of
           b1 # r \<Rightarrow>
             if cont b1 then
               map_option ((#) ((b0 - 0xC0) * 64 + (b1 - 0x80))) (utf8_decode r)
             else None
         | _ \<Rightarrow> None)
      else if 0xE0 \<le> b0 \<and> b0 \<le> 0xEF then
        (case bs of
           b1 # b2 # r \<Rightarrow>
             if cont b1 \<and> cont b2 \<and> (b0 = 0xE0 \<longrightarrow> 0xA0 \<le> b1) \<and> (b0 = 0xED \<longrightarrow> b1 \<le> 0x9F) then
               map_option ((#) ((b0 - 0xE0) * 4096 + (b1 - 0x80) * 64 + (b2 - 0x80)))
                 (utf8_decode r)
             else None
         | _ \<Rightarrow> None)
      else if 0xF0 \<le> b0 \<and> b0 \<le> 0xF4 then
        (case bs of
           b1 # b2 # b3 # r \<Rightarrow>
             if cont b1 \<and> cont b2 \<and> cont b3 \<and> (b0 = 0xF0 \<longrightarrow> 0x90 \<le> b1)
                \<and> (b0 = 0xF4 \<longrightarrow> b1 \<le> 0x8F) then
               map_option
                 ((#) ((b0 - 0xF0) * 262144 + (b1 - 0x80) * 4096 + (b2 - 0x80) * 64 + (b3 - 0x80)))
                 (utf8_decode r)
             else None
         | _ \<Rightarrow> None)
      else None)"

section \<open>The codec: JSON\<close>

subsection \<open>\<open>json.dumps\<close>\<close>

definition hex_digit :: "nat \<Rightarrow> nat" where
  "hex_digit d = (if d < 10 then 48 + d else 87 + d)"

definition u_escape :: "nat \<Rightarrow> pystr" where
  "u_escape n =
     [92, 117, hex_digit (n div 4096 mod 16), hex_digit (n div 256 mod 16),
      hex_digit (n div 16 mod 16), hex_digit (n mod 16)]"

definition escape_cp :: "nat \<Rightarrow> pystr" where
  "escape_cp c =
     (if c = 34 then [92, 34]
      else if c = 92 then [92, 92]
      else if c = 10 then [92, 110]
      else if c = 13 then [92, 114]
      else if c = 9 then [92, 116]
      else if c = 8 then [92, 98]
      else if c = 12 then [92, 102]
      else if 32 \<le> c \<and> c \<le> 126 then [c]
      else if c < 0x10000 then u_escape c
      else u_escape (0xD800 + (c - 0x10000) div 1024 mod 1024)
           @ u_escape (0xDC00 + (c - 0x10000) mod 1024))"

definition encode_basestring_ascii :: "pystr \<Rightarrow> pystr" where
  "encode_basestring_ascii s = 34 # concat (map escape_cp s) @ [34]"

fun dumps :: "pyval \<Rightarrow> pystr"
  and dumps_list :: "pyval list \<Rightarrow> pystr"
  and dumps_items :: "pydict \<Rightarrow> pystr" where
  "dumps PNone = py ''null''"
| "dumps (PBool b) = (if b then py ''true'' else py ''false'')"
| "dumps (PInt i) = str_int i"
| "dumps (PFloat t) = t"
| "dumps (PStr s) = encode_basestring_ascii s"
| "dumps (PList xs) = 91 # dumps_list xs @ [93]"
| "dumps (PDict kvs) = 123 # dumps_items kvs @ [125]"
| "dumps_list [] = []"
| "dumps_list (x # xs) = dumps x @ (if xs = [] then [] else py '', '' @ dumps_list xs)"
| "dumps_items [] = []"
| "dumps_items ((k, v) # kvs) =
     encode_basestring_ascii k @ py '': '' @ dumps v
     @ (if kvs = [] then [] else py '', '' @ dumps_items kvs)"

subsection \<open>\<open>json.loads\<close>\<close>

definition is_ws :: "nat \<Rightarrow> bool" where
  "is_ws c = (c = 32 \<or> c = 9 \<or> c = 10 \<or> c = 13)"

definition skip_ws :: "pystr \<Rightarrow> pystr" where
  "skip_ws s = dropWhile is_ws s"

definition is_digit :: "nat \<Rightarrow> bool" where
  "is_digit c = (48 \<le> c \<and> c \<le> 57)"

definition hex_value :: "nat \<Rightarrow> nat option" where
  "hex_value c =
     (if 48 \<le> c \<and> c \<le> 57 then Some (c - 48)
      else if 97 \<le> c \<and> c \<le> 102 then Some (c - 87)
      else if 65 \<le> c \<and> c \<le> 70 then Some (c - 55)
      else None)"

definition hex4 :: "nat \<Rightarrow> nat \<Rightarrow> nat \<Rightarrow> nat \<Rightarrow> nat option" where
  "hex4 a b c d =
     (case (hex_value a, hex_value b, hex_value c, hex_value d) of
        (Some w, Some x, Some y, Some z) \<Rightarrow> Some (((w * 16 + x) * 16 + y) * 16 + z)
      | _ \<Rightarrow> None)"

definition unescape :: "nat \<Rightarrow> nat option" where
  "unescape e =
     (if e = 34 \<or> e = 92 \<or> e = 47 then Some e
      else if e = 98 then Some 8
      else if e = 102 then Some 12
      else if e = 110 then Some 10
      else if e = 114 then Some 13
      else if e = 116 then Some 9
      else None)"

definition cons_char :: "nat \<Rightarrow> (pystr \<times> pystr) option \<Rightarrow> (pystr \<times> pystr) option" where
  "cons_char c r = (case r of None \<Rightarrow> None | Some (s, rest) \<Rightarrow> Some (c # s, rest))"

fun scanstring :: "pystr \<Rightarrow> (pystr \<times> pystr) option" where
  "scanstring [] = None"
| "scanstring (c # cs) =
     (if c = 34 then Some ([], cs)
      else if c = 92 then
        (case cs of
           [] \<Rightarrow> None
         | e # r \<Rightarrow>
             if e = 117 then
               (case r of
                  h1 # h2 # h3 # h4 # r1 \<Rightarrow>
                    if r1 = [] then None
                    else
                      (case hex4 h1 h2 h3 h4 of
                         None \<Rightarrow> None
                       | Some u \<Rightarrow>
                           if 0xD800 \<le> u \<and> u \<le> 0xDBFF then
                             (case r1 of
                                b # v # g1 # g2 # g3 # g4 # r2 \<Rightarrow>
                                  if b = 92 \<and> v = 117 \<and> r2 \<noteq> [] then
                                    (case hex4 g1 g2 g3 g4 of
                                       None \<Rightarrow> None
                                     | Some u2 \<Rightarrow>
                                         if 0xDC00 \<le> u2 \<and> u2 \<le> 0xDFFF then
                                           cons_char
                                             (0x10000 + ((u - 0xD800) * 1024 + (u2 - 0xDC00)))
                                             (scanstring r2)
                                         else cons_char u (scanstring r1))
                                  else cons_char u (scanstring r1)
                              | _ \<Rightarrow> cons_char u (scanstring r1))
                           else cons_char u (scanstring r1))
                | _ \<Rightarrow> None)
             else
               (case unescape e of
                  None \<Rightarrow> None
                | Some x \<Rightarrow> cons_char x (scanstring r)))
      else if c < 32 then None
      else cons_char c (scanstring cs))"

definition nat_of_digits :: "pystr \<Rightarrow> nat" where
  "nat_of_digits ds = foldl (\<lambda>n d. n * 10 + (d - 48)) 0 ds"

definition fraction_part :: "pystr \<Rightarrow> pystr \<times> pystr" where
  "fraction_part s =
     (case s of
        dot # d # r \<Rightarrow>
          if dot = 46 \<and> is_digit d then (dot # d # takeWhile is_digit r, dropWhile is_digit r)
          else ([], s)
      | _ \<Rightarrow> ([], s))"

definition exponent_part :: "pystr \<Rightarrow> pystr \<times> pystr" where
  "exponent_part s =
     (case s of
        e # r \<Rightarrow>
          if e = 101 \<or> e = 69 then
            (let (sign, r1) =
                   (case r of
                      sg # t \<Rightarrow> if sg = 45 \<or> sg = 43 then ([sg], t) else ([], r)
                    | [] \<Rightarrow> ([], r))
             in case r1 of
                  d # t \<Rightarrow>
                    if is_digit d then
                      (e # sign @ d # takeWhile is_digit t, dropWhile is_digit t)
                    else ([], s)
                | [] \<Rightarrow> ([], s))
          else ([], s)
      | [] \<Rightarrow> ([], s))"

definition match_number :: "pystr \<Rightarrow> (pyval \<times> pystr) option" where
  "match_number s =
     (let (neg, s1) = (case s of c # r \<Rightarrow> if c = 45 then (True, r) else (False, s)
                                | [] \<Rightarrow> (False, s))
      in case s1 of
           [] \<Rightarrow> None
         | d # r \<Rightarrow>
             if \<not> is_digit d then None
             else
               (let (ip, r1) = (if d = 48 then ([d], r)
                                else (d # takeWhile is_digit r, dropWhile is_digit r));
                    (fp, r2) = fraction_part r1;
                    (ep, r3) = exponent_part r2
                in if fp = [] \<and> ep = [] then
                     Some (PInt (if neg then - int (nat_of_digits ip) else int (nat_of_digits ip)), r3)
                   else Some (PFloat ((if neg then [45] else []) @ ip @ fp @ ep), r3)))"

definition starts_with :: "pystr \<Rightarrow> pystr \<Rightarrow> bool" where
  "starts_with p s = (take (length p) s = p)"

datatype 'a parse = Parsed 'a | Invalid | Exhausted

fun parse_value :: "nat \<Rightarrow> pystr \<Rightarrow> (pyval \<times> pystr) parse"
  and parse_members :: "nat \<Rightarrow> pydict \<Rightarrow> pystr \<Rightarrow> (pydict \<times> pystr) parse"
  and parse_elements :: "nat \<Rightarrow> pyval list \<Rightarrow> pystr \<Rightarrow> (pyval list \<times> pystr) parse" where
  "parse_value 0 s = Exhausted"
| "parse_value (Suc n) s =
     (case s of
        [] \<Rightarrow> Invalid
      | c # r \<Rightarrow>
          if c = 34 then
            (case scanstring r of None \<Rightarrow> Invalid | Some (t, rest) \<Rightarrow> Parsed (PStr t, rest))
          else if c = 123 then
            (case skip_ws r of
               [] \<Rightarrow> Invalid
             | c1 # r1 \<Rightarrow>
                 if c1 = 125 then Parsed (PDict [], r1)
                 else
                   (case parse_members n [] (c1 # r1) of
                      Parsed (kvs, rest) \<Rightarrow> Parsed (PDict kvs, rest)
                    | Invalid \<Rightarrow> Invalid
                    | Exhausted \<Rightarrow> Exhausted))
          else if c = 91 then
            (case skip_ws r of
               [] \<Rightarrow> Invalid
             | c1 # r1 \<Rightarrow>
                 if c1 = 93 then Parsed (PList [], r1)
                 else
                   (case parse_elements n [] (c1 # r1) of
                      Parsed (xs, rest) \<Rightarrow> Parsed (PList xs, rest)
                    | Invalid \<Rightarrow> Invalid
                    | Exhausted \<Rightarrow> Exhausted))
          else if starts_with (py ''null'') s then Parsed (PNone, drop 4 s)
          else if starts_with (py ''true'') s then Parsed (PBool True, drop 4 s)
          else if starts_with (py ''false'') s then Parsed (PBool False, drop 5 s)
          else if starts_with (py ''NaN'') s then Parsed (PFloat (py ''NaN''), drop 3 s)
          else if starts_with (py ''Infinity'') s then Parsed (PFloat (py ''Infinity''), drop 8 s)
          else if starts_with (py ''-Infinity'') s then Parsed (PFloat (py ''-Infinity''), drop 9 s)
          else (case match_number s of None \<Rightarrow> Invalid | Some r \<Rightarrow> Parsed r))"
| "parse_members 0 acc s = Exhausted"
| "parse_members (Suc n) acc s =
     (case s of
        [] \<Rightarrow> Invalid
      | q # r \<Rightarrow>
          if q \<noteq> 34 then Invalid
          else
            (case scanstring r of
               None \<Rightarrow> Invalid
             | Some (key, r1) \<Rightarrow>
                 (case skip_ws r1 of
                    [] \<Rightarrow> Invalid
                  | colon # r2 \<Rightarrow>
                      if colon \<noteq> 58 then Invalid
                      else
                        (case parse_value n (skip_ws r2) of
                           Invalid \<Rightarrow> Invalid
                         | Exhausted \<Rightarrow> Exhausted
                         | Parsed (v, r3) \<Rightarrow>
                             (case skip_ws r3 of
                                [] \<Rightarrow> Invalid
                              | d # r4 \<Rightarrow>
                                  if d = 125 then Parsed (AList.update key v acc, r4)
                                  else if d = 44 then
                                    parse_members n (AList.update key v acc) (skip_ws r4)
                                  else Invalid)))))"
| "parse_elements 0 acc s = Exhausted"
| "parse_elements (Suc n) acc s =
     (case parse_value n s of
        Invalid \<Rightarrow> Invalid
      | Exhausted \<Rightarrow> Exhausted
      | Parsed (v, r1) \<Rightarrow>
          (case skip_ws r1 of
             [] \<Rightarrow> Invalid
           | d # r2 \<Rightarrow>
               if d = 93 then Parsed (acc @ [v], r2)
               else if d = 44 then parse_elements n (acc @ [v]) (skip_ws r2)
               else Invalid))"

definition loads :: "pystr \<Rightarrow> decode_failure + pyval" where
  "loads s =
     (case parse_value (Suc (length s)) (skip_ws s) of
        Parsed (v, rest) \<Rightarrow> if skip_ws rest = [] then Inr v else Inl JSONDecodeError
      | Invalid \<Rightarrow> Inl JSONDecodeError
      | Exhausted \<Rightarrow> Inl JSONDecodeError)"

definition scalar :: "nat \<Rightarrow> bool" where
  "scalar c = (c < 0x110000 \<and> \<not> (0xD800 \<le> c \<and> c \<le> 0xDFFF))"

definition wf_text :: "pystr \<Rightarrow> bool" where
  "wf_text s = list_all scalar s"



definition number_end :: "pystr \<Rightarrow> bool" where
  "number_end rest =
     (case rest of [] \<Rightarrow> True | c # r \<Rightarrow> \<not> is_digit c \<and> c \<noteq> 46 \<and> c \<noteq> 101 \<and> c \<noteq> 69)"

fun wf_val :: "pyval \<Rightarrow> bool"
  and wf_vals :: "pyval list \<Rightarrow> bool"
  and wf_items :: "pydict \<Rightarrow> bool" where
  "wf_val PNone = True"
| "wf_val (PBool b) = True"
| "wf_val (PInt i) = True"
| "wf_val (PFloat t) = False"
| "wf_val (PStr s) = wf_text s"
| "wf_val (PList xs) = wf_vals xs"
| "wf_val (PDict kvs) = (wf_items kvs \<and> distinct (map fst kvs))"
| "wf_vals [] = True"
| "wf_vals (x # xs) = (wf_val x \<and> wf_vals xs)"
| "wf_items [] = True"
| "wf_items ((k, v) # kvs) = (wf_text k \<and> wf_val v \<and> wf_items kvs)"

fun fuel :: "pyval \<Rightarrow> nat"
  and fuel_list :: "pyval list \<Rightarrow> nat"
  and fuel_items :: "pydict \<Rightarrow> nat" where
  "fuel PNone = 1"
| "fuel (PBool b) = 1"
| "fuel (PInt i) = 1"
| "fuel (PFloat t) = 1"
| "fuel (PStr s) = 1"
| "fuel (PList xs) = Suc (fuel_list xs)"
| "fuel (PDict kvs) = Suc (fuel_items kvs)"
| "fuel_list [] = 0"
| "fuel_list (x # xs) = Suc (fuel x + fuel_list xs)"
| "fuel_items [] = 0"
| "fuel_items ((k, v) # kvs) = Suc (fuel v + fuel_items kvs)"





section \<open>The payment header codec and signer\<close>

text \<open>
  \<open>facilitators/cronos_facilitator.py\<close>.
\<close>

record token_config =
  address :: pystr
  name :: pystr
  version :: pystr

definition TOKENS :: "(pystr \<times> (pystr \<times> token_config) list) list" where
  "TOKENS =
     [(py ''cronos-testnet'',
         [(py ''USDC.e'',
             \<lparr>address = py ''0xc01efAaF7C5C61bEbFAeb358E1161b537b8bC0e0'',
              name = py ''Bridged USDC (Stargate)'',
              version = py ''1''\<rparr>)]),
      (py ''cronos-mainnet'',
         [(py ''USDC.e'',
             \<lparr>address = py ''0xc21223249CA28397B4B6541dfFaEcC539BfF0141'',
              name = py ''Bridged USDC (Stargate)'',
              version = py ''1''\<rparr>)])]"

record cronos_facilitator =
  network :: pystr
  chain_id :: pystr

definition CronosFacilitator :: "pystr \<Rightarrow> cronos_facilitator" where
  "CronosFacilitator net =
     \<lparr>network = net, chain_id = (if net = py ''cronos-testnet'' then py ''338'' else py ''25'')\<rparr>"

text \<open>\<open>os.urandom(32).hex()\<close> with the bytes drawn given: two lowercase hex digits a byte.\<close>

definition bytes_hex :: "pybytes \<Rightarrow> pystr" where
  "bytes_hex bs = concat (map (\<lambda>b. [hex_digit (b div 16), hex_digit (b mod 16)]) bs)"

definition generate_nonce :: "pybytes \<Rightarrow> pystr" where
  "generate_nonce urandom32 = py ''0x'' @ bytes_hex urandom32"

text \<open>\<open>_get_token_config\<close>: the first entry of the network's table whose address equals the
  asset when both are lowered.\<close>

definition get_token_config :: "cronos_facilitator \<Rightarrow> pystr \<Rightarrow> token_config option" where
  "get_token_config self asset =
     (case map_of TOKENS (network self) of
        None \<Rightarrow> None
      | Some tokens \<Rightarrow>
          map_option snd
            (List.find (\<lambda>(token_name, config). str_lower (address config) = str_lower asset) tokens))"

text \<open>\<open>a or b\<close> for an optional string \<open>a\<close>: \<open>b\<close> when \<open>a\<close> is \<open>None\<close> or empty.\<close>

definition or_else :: "pystr option \<Rightarrow> pystr \<Rightarrow> pystr" where
  "or_else a b = (case a of None \<Rightarrow> b | Some s \<Rightarrow> if s = [] then b else s)"

text \<open>Lines 123 to 132 of \<open>generate_payment_header\<close>: the EIP-712 domain name and version.\<close>

definition resolve_domain ::
  "cronos_facilitator \<Rightarrow> pystr \<Rightarrow> pystr option \<Rightarrow> pystr option \<Rightarrow> pystr \<times> pystr" where
  "resolve_domain self asset token_name token_version =
     (case (token_name, token_version) of
        (Some n, Some v) \<Rightarrow> (n, v)
      | _ \<Rightarrow>
          (case get_token_config self asset of
             Some token_config \<Rightarrow>
               (or_else token_name (name token_config), or_else token_version (version token_config))
           | None \<Rightarrow>
               (or_else token_name (py ''Bridged USDC (Stargate)''), or_else token_version (py ''1''))))"

text \<open>The dictionary built at lines 178 to 192, with every field a parameter.\<close>

definition payment_header ::
  "int \<Rightarrow> pystr \<Rightarrow> pystr \<Rightarrow> pystr \<Rightarrow> pystr \<Rightarrow> pystr \<Rightarrow> int \<Rightarrow> int \<Rightarrow> pystr \<Rightarrow> pystr \<Rightarrow> pystr
     \<Rightarrow> pyval" where
  "payment_header x402Version scheme net from_address to_address val valid_after valid_before
     nonce signature asset_address =
     PDict
       [(py ''x402Version'', PInt x402Version),
        (py ''scheme'', PStr scheme),
        (py ''network'', PStr net),
        (py ''payload'',
           PDict
             [(py ''from'', PStr from_address),
              (py ''to'', PStr to_address),
              (py ''value'', PStr val),
              (py ''validAfter'', PInt valid_after),
              (py ''validBefore'', PInt valid_before),
              (py ''nonce'', PStr nonce),
              (py ''signature'', PStr signature),
              (py ''asset'', PStr asset_address)])]"

text \<open>Lines 194 to 198: \<open>base64.b64encode(json.dumps(h).encode()).decode()\<close>.\<close>

definition encode_payment_header :: "pyval \<Rightarrow> exn + pystr" where
  "encode_payment_header h =
     (case utf8_encode (dumps h) of
        None \<Rightarrow> Inl (OtherError (py ''UnicodeEncodeError''))
      | Some header_json \<Rightarrow> Inr (b64encode header_json))"

definition decode_payment_header :: "pystr \<Rightarrow> decode_failure + pyval" where
  "decode_payment_header header_b64 =
     (case b64decode header_b64 of
        Inl e \<Rightarrow> Inl e
      | Inr raw \<Rightarrow>
          (case utf8_decode raw of
             None \<Rightarrow> Inl UnicodeDecodeError
           | Some header_json \<Rightarrow> loads header_json))"

text \<open>
  What the signer takes from outside the repository: eth_account and web3 (key to address,
  checksum form of an address, the EIP-712 signature as \<open>signature.hex()\<close>), the built-in
  \<open>int\<close> on a string, the clock and the random source.  Each library call returns or raises.
\<close>

record typed_message =
  domain_name :: pystr
  domain_version :: pystr
  domain_chainId :: int
  domain_verifyingContract :: pystr
  msg_from :: pystr
  msg_to :: pystr
  msg_value :: int
  msg_validAfter :: int
  msg_validBefore :: int
  msg_nonce :: pystr

record signer_env =
  from_key :: "pystr \<Rightarrow> exn + pystr"
  to_checksum :: "pystr \<Rightarrow> exn + pystr"
  int_of_str :: "pystr \<Rightarrow> exn + int"
  sign_typed_data :: "pystr \<Rightarrow> typed_message \<Rightarrow> exn + pystr"
  time_now :: int
  urandom32 :: pybytes

definition startswith :: "pystr \<Rightarrow> pystr \<Rightarrow> bool" where
  "startswith s p = (take (length p) s = p)"

text \<open>
  \<open>generate_payment_header\<close> up to line 192: the signed header as a dictionary.  Line 138
  reads \<open>int(self.chain_id)\<close>.
\<close>

definition build_payment_header ::
  "signer_env \<Rightarrow> cronos_facilitator \<Rightarrow> pystr \<Rightarrow> pystr \<Rightarrow> pystr \<Rightarrow> pystr \<Rightarrow> int
     \<Rightarrow> pystr option \<Rightarrow> pystr option \<Rightarrow> exn + pyval" where
  "build_payment_header env self private_key pay_to asset amount timeout_seconds
     token_name token_version =
     (let private_key = (if \<not> startswith private_key (py ''0x'') then py ''0x'' @ private_key
                         else private_key)
      in case from_key env private_key of
           Inl e \<Rightarrow> Inl e
         | Inr account_address \<Rightarrow>
      (case to_checksum env (str_lower account_address) of
           Inl e \<Rightarrow> Inl e
         | Inr from_address \<Rightarrow>
      (case to_checksum env (str_lower pay_to) of
           Inl e \<Rightarrow> Inl e
         | Inr to_address \<Rightarrow>
      (case to_checksum env (str_lower asset) of
           Inl e \<Rightarrow> Inl e
         | Inr asset_address \<Rightarrow>
      (let nonce = generate_nonce (urandom32 env);
           valid_after = 0;
           valid_before = time_now env + timeout_seconds;
           (token_name, token_version) = resolve_domain self asset token_name token_version
       in case int_of_str env (chain_id self) of
            Inl e \<Rightarrow> Inl e
          | Inr chainId \<Rightarrow>
       (case int_of_str env amount of
            Inl e \<Rightarrow> Inl e
          | Inr val \<Rightarrow>
       (case sign_typed_data env private_key
               \<lparr>domain_name = token_name, domain_version = token_version,
                domain_chainId = chainId, domain_verifyingContract = asset_address,
                msg_from = from_address, msg_to = to_address, msg_value = val,
                msg_validAfter = valid_after, msg_validBefore = valid_before,
                msg_nonce = nonce\<rparr> of
            Inl e \<Rightarrow> Inl e
          | Inr signature_hex \<Rightarrow>
              (let signature = (if \<not> startswith signature_hex (py ''0x'')
                                then py ''0x'' @ signature_hex else signature_hex)
               in Inr (payment_header 1 (py ''eip3009'') (network self) from_address to_address
                         amount valid_after valid_before nonce signature asset_address)))))))))"

definition generate_payment_header ::
  "signer_env \<Rightarrow> cronos_facilitator \<Rightarrow> pystr \<Rightarrow> pystr \<Rightarrow> pystr \<Rightarrow> pystr \<Rightarrow> int
     \<Rightarrow> pystr option \<Rightarrow> pystr option \<Rightarrow> exn + pystr" where
  "generate_payment_header env self private_key pay_to asset amount timeout_seconds
     token_name token_version =
     (case build_payment_header env self private_key pay_to asset amount timeout_seconds
             token_name token_version of
        Inl e \<Rightarrow> Inl e
      | Inr h \<Rightarrow> encode_payment_header h)"

text \<open>The fields of section 6 of the specification that a credential must carry.\<close>

definition has_required_fields :: "pyval \<Rightarrow> bool" where
  "has_required_fields h =
     (case h of
        PDict kvs \<Rightarrow>
          (\<forall>k \<in> set [py ''x402Version'', py ''scheme'', py ''network'']. map_of kvs k \<noteq> None) \<and>
          (case map_of kvs (py ''payload'') of
             Some (PDict payload) \<Rightarrow>
               (\<forall>k \<in> set [py ''from'', py ''to'', py ''value'', py ''validAfter'',
                            py ''validBefore'', py ''nonce'', py ''signature'', py ''asset''].
                  map_of payload k \<noteq> None)
           | _ \<Rightarrow> False)
      | _ \<Rightarrow> False)"

text \<open>Reading a decoded header.\<close>

definition header_field :: "pyval \<Rightarrow> pystr \<Rightarrow> pyval option" where
  "header_field h k = (case h of PDict kvs \<Rightarrow> map_of kvs k | _ \<Rightarrow> None)"

definition payload_field :: "pyval \<Rightarrow> pystr \<Rightarrow> pyval option" where
  "payload_field h k =
     (case header_field h (py ''payload'') of
        Some (PDict payload) \<Rightarrow> map_of payload k
      | _ \<Rightarrow> None)"

text \<open>The validity window a header generated by the signer decodes to.\<close>

definition decoded_window ::
  "signer_env \<Rightarrow> cronos_facilitator \<Rightarrow> pystr \<Rightarrow> pystr \<Rightarrow> pystr \<Rightarrow> pystr \<Rightarrow> int \<Rightarrow> int option" where
  "decoded_window env self private_key pay_to asset amount timeout_seconds =
     (case generate_payment_header env self private_key pay_to asset amount timeout_seconds
             None None of
        Inl e \<Rightarrow> None
      | Inr h \<Rightarrow>
          (case decode_payment_header h of
             Inl e \<Rightarrow> None
           | Inr x \<Rightarrow>
               (case (payload_field x (py ''validBefore''), payload_field x (py ''validAfter'')) of
                  (Some (PInt b), Some (PInt a)) \<Rightarrow> Some (b - a)
                | _ \<Rightarrow> None)))"

text \<open>A stand-in for the libraries, for the examples.\<close>

definition demo_env :: "pybytes \<Rightarrow> signer_env" where
  "demo_env draw =
     \<lparr>from_key = (\<lambda>k. if length k = 66
                        then Inr (py ''0x19E7E376E7C213B7E7e7e46cc70A5dD086DAff2A'')
                        else Inl (ValueError (py ''The private key must be exactly 32 bytes long''))),
      to_checksum = (\<lambda>a. if length a = 42 \<and> list_all (\<lambda>c. c < 128) a then Inr a
                          else Inl (ValueError (py ''Unknown format''))),
      int_of_str = (\<lambda>s. if s \<noteq> [] \<and> list_all is_digit s then Inr (int (nat_of_digits s))
                         else Inl (ValueError (py ''invalid literal for int()''))),
      sign_typed_data = (\<lambda>k m. Inr (replicate 130 102)),
      time_now = 1700000000,
      urandom32 = draw\<rparr>"

definition demo_key :: pystr where
  "demo_key = py ''0x'' @ replicate 64 49"

definition demo_pay_to :: pystr where
  "demo_pay_to = py ''0x742d35Cc6634C0532925a3b844Bc9e7595f0bEb0''"

definition demo_asset :: pystr where
  "demo_asset = py ''0xC21223249CA28397B4B6541DFFAECC539BFF0141''"

section \<open>The safe facade\<close>

text \<open>
  \<open>facilitators/__init__.py\<close>.  The policy engine is not part of the sources: its
  \<open>validate_transaction(to, value, data, context)\<close> is a parameter that returns a dictionary or
  raises, and hands back the context dictionary as the call left it, since the dictionary
  is passed by reference.  The caller's context lives in a store of dictionaries.
\<close>

type_synonym policy_engine =
  "pystr \<Rightarrow> pystr \<Rightarrow> pystr \<Rightarrow> pydict \<Rightarrow> (exn + pydict) \<times> pydict"

record safe_facilitator =
  facilitator :: cronos_facilitator
  private_key :: pystr
  sf_network :: pystr

text \<open>
  \<open>CronosFacilitator\<close> has no method \<open>_get_account_address\<close>: the lookup at line 142, made
  while the success dictionary is built inside the \<open>try\<close>, raises \<open>AttributeError\<close>.
\<close>

definition no_get_account_address :: exn where
  "no_get_account_address = AttributeError
     (py ''CronosFacilitator object has no attribute _get_account_address'')"

definition signing_failed :: "exn \<Rightarrow> pydict \<Rightarrow> pydict" where
  "signing_failed e validation_result =
     [(py ''approved'', PBool False),
      (py ''reason'', PStr (py ''Failed to generate payment header: '' @ str_exn e)),
      (py ''validation'', PDict validation_result),
      (py ''stages'', dict_get validation_result (py ''stages'') (PDict [])),
      (py ''error'', PStr (str_exn e))]"

text \<open>Lines 96 to 106: the context dictionary as it is handed to the policy engine.\<close>

definition prepared_context ::
  "safe_facilitator \<Rightarrow> pystr \<Rightarrow> pystr \<Rightarrow> pystr \<Rightarrow> nat option \<Rightarrow> (nat \<Rightarrow> pydict) \<Rightarrow> pydict" where
  "prepared_context self pay_to asset amount context store =
     dict_update (case context of None \<Rightarrow> [] | Some ref \<Rightarrow> store ref)
       [(py ''payment_type'', PStr (py ''x402'')),
        (py ''recipient'', PStr pay_to),
        (py ''token'', PStr asset),
        (py ''amount'', PStr amount),
        (py ''network'', PStr (sf_network self))]"

definition rejected :: "pydict \<Rightarrow> pydict" where
  "rejected validation_result =
     [(py ''approved'', PBool False),
      (py ''reason'',
         dict_get validation_result (py ''reason'') (PStr (py ''Validation failed''))),
      (py ''validation'', PDict validation_result),
      (py ''stages'', dict_get validation_result (py ''stages'') (PDict []))]"

definition generate_safe_payment_header ::
  "signer_env \<Rightarrow> policy_engine \<Rightarrow> safe_facilitator \<Rightarrow> pystr \<Rightarrow> pystr \<Rightarrow> pystr \<Rightarrow> nat option
     \<Rightarrow> int \<Rightarrow> (nat \<Rightarrow> pydict) \<Rightarrow> (exn + pydict) \<times> (nat \<Rightarrow> pydict)" where
  "generate_safe_payment_header env validate_transaction self pay_to asset amount context
     timeout_seconds store =
     (let context1 = prepared_context self pay_to asset amount context store;
          (outcome, context2) = validate_transaction pay_to amount (py ''0x'') context1;
          store' = (case context of None \<Rightarrow> store | Some ref \<Rightarrow> store(ref := context2))
      in case outcome of
           Inl e \<Rightarrow> (Inl e, store')
         | Inr validation_result \<Rightarrow>
             if \<not> truthy (dict_get validation_result (py ''approved'') (PBool False)) then
               (Inr (rejected validation_result), store')
             else
               (case generate_payment_header env (facilitator self) (private_key self) pay_to
                       asset amount timeout_seconds None None of
                  Inl e \<Rightarrow> (Inr (signing_failed e validation_result), store')
                | Inr header_b64 \<Rightarrow>
                    (Inr (signing_failed no_get_account_address validation_result), store')))"

text \<open>A policy engine that approves and leaves the context alone, and a rejecting one.\<close>

definition approving_engine :: policy_engine where
  "approving_engine to val data context =
     (Inr [(py ''approved'', PBool True), (py ''stages'', PDict [])], context)"

definition rejecting_engine :: policy_engine where
  "rejecting_engine to val data context =
     (Inr [(py ''approved'', PBool False), (py ''reason'', PStr (py ''Amount exceeds limit''))],
      context)"

definition demo_facade :: "pystr \<Rightarrow> safe_facilitator" where
  "demo_facade key =
     \<lparr>facilitator = CronosFacilitator (py ''cronos-mainnet''), private_key = key,
      sf_network = py ''cronos-mainnet''\<rparr>"



section \<open>Predicates of the statements\<close>

text \<open>A lowercase hexadecimal digit.\<close>

definition lower_hex :: "nat \<Rightarrow> bool" where
  "lower_hex c = ((48 \<le> c \<and> c \<le> 57) \<or> (97 \<le> c \<and> c \<le> 102))"

text \<open>The libraries return well-formed text: addresses and signatures without surrogates.\<close>

definition text_results :: "signer_env \<Rightarrow> bool" where
  "text_results env =
     ((\<forall>a r. to_checksum env a = Inr r \<longrightarrow> wf_text r) \<and>
      (\<forall>k m s. sign_typed_data env k m = Inr s \<longrightarrow> wf_text s))"

(*DEFS-END*)

section \<open>Properties of the validation pipeline\<close>

lemmas pipeline_defs =
  validate_with_agentshield_def run_stage2_def run_stage3_def run_stage4_def
  stage_failed_def failure_reason_def

lemma failed_stage_is_last:
  "s \<in> set (fst (validate_with_agentshield self st intent)) \<Longrightarrow>
   stage_failed st s intent \<Longrightarrow>
     last (fst (validate_with_agentshield self st intent)) = s \<and>
     snd (validate_with_agentshield self st intent) =
       Inr (Blocked (failure_reason st s intent) (stage_name s)) \<and>
     (\<forall>t \<in> set (fst (validate_with_agentshield self st intent)).
        stage_index t \<le> stage_index s)"
  by (cases s) (auto simp: pipeline_defs split: if_splits sum.splits option.splits)

lemma earlier_stages_passed:
  "s \<in> set (fst (validate_with_agentshield self st intent)) \<Longrightarrow>
   t \<in> set (fst (validate_with_agentshield self st intent)) \<Longrightarrow>
   stage_index t < stage_index s \<Longrightarrow>
     \<exists>r. stage_call st t intent = Some (Inr r) \<and> passed r"
  by (cases s; cases t) (auto simp: pipeline_defs split: if_splits sum.splits option.splits)

lemma honeypot_only_for_swap_buy:
  "Honeypot_Detection \<in> set (fst (validate_with_agentshield self st intent)) \<Longrightarrow>
     map_of intent (py ''action'') = Some (PStr (py ''swap'')) \<or>
     map_of intent (py ''action'') = Some (PStr (py ''buy''))"
  by (auto simp: pipeline_defs split: if_splits sum.splits option.splits)

lemma transfer_query_run:
  "map_of intent (py ''action'') = Some (PStr (py ''transfer'')) \<or>
   map_of intent (py ''action'') = Some (PStr (py ''query'')) \<Longrightarrow>
   stage_passes (llm_judge self) (stage1_llm_judge st) intent \<Longrightarrow>
   stage_passes (policy_engine self) (stage2_policy st) intent \<Longrightarrow>
     validate_with_agentshield self st intent =
       ((if llm_judge self then [LLM_Intent_Judge] else []) @
        (if policy_engine self then [Policy_Validation] else []) @ [LLM_Analysis],
        Inr (Approved (py ''All validation stages passed'')))"
  by (auto simp: pipeline_defs stage_passes_def split: if_splits sum.splits option.splits)

lemma policy_failure_stops_run:
  "stage_failed st Policy_Validation intent \<Longrightarrow>
   Policy_Validation \<in> set (fst (validate_with_agentshield self st intent)) \<Longrightarrow>
     Honeypot_Detection \<notin> set (fst (validate_with_agentshield self st intent)) \<and>
     LLM_Analysis \<notin> set (fst (validate_with_agentshield self st intent))"
  using failed_stage_is_last [of Policy_Validation self st intent] by fastforce

lemma no_honeypot_for_transfer_query:
  "map_of intent (py ''action'') = Some (PStr (py ''transfer'')) \<or>
   map_of intent (py ''action'') = Some (PStr (py ''query'')) \<Longrightarrow>
     Honeypot_Detection \<notin> set (fst (validate_with_agentshield self st intent))"
  using honeypot_only_for_swap_buy [of self st intent] by auto

text \<open>
  C3.  The pipeline short-circuits.  Let a run of the pipeline execute the stages \<open>log\<close>
  and return \<open>res\<close>.  A stage of the log whose method reported failure is the last stage
  executed, the result is the rejection naming that stage with the stage's own reason, and
  no stage after it in the pipeline order was executed; every stage executed before another
  one had passed.  In particular, after a failed policy stage neither the honeypot probe
  nor the final analysis stage is executed.  The honeypot probe is executed only when the
  intent's action is \<open>swap\<close> or \<open>buy\<close>; for \<open>transfer\<close> and \<open>query\<close> it is skipped, and
  the run is approved as soon as the judge and policy stages let it through.
\<close>

theorem pipeline_short_circuit:
  assumes run: "validate_with_agentshield self st intent = (log, res)"
  shows "(\<forall>s \<in> set log. stage_failed st s intent \<longrightarrow>
            last log = s \<and>
            res = Inr (Blocked (failure_reason st s intent) (stage_name s)) \<and>
            (\<forall>t \<in> set log. stage_index t \<le> stage_index s))
       \<and> (\<forall>s \<in> set log. \<forall>t \<in> set log. stage_index t < stage_index s \<longrightarrow>
            (\<exists>r. stage_call st t intent = Some (Inr r) \<and> passed r))
       \<and> (stage_failed st Policy_Validation intent \<and> Policy_Validation \<in> set log \<longrightarrow>
            Honeypot_Detection \<notin> set log \<and> LLM_Analysis \<notin> set log)
       \<and> (Honeypot_Detection \<in> set log \<longrightarrow>
            map_of intent (py ''action'') = Some (PStr (py ''swap'')) \<or>
            map_of intent (py ''action'') = Some (PStr (py ''buy'')))
       \<and> (map_of intent (py ''action'') = Some (PStr (py ''transfer'')) \<or>
          map_of intent (py ''action'') = Some (PStr (py ''query'')) \<longrightarrow>
            Honeypot_Detection \<notin> set log \<and>
            (stage_passes (llm_judge self) (stage1_llm_judge st) intent \<and>
             stage_passes (policy_engine self) (stage2_policy st) intent \<longrightarrow>
               res = Inr (Approved (py ''All validation stages passed'')) \<and>
               last log = LLM_Analysis))"
proof -
  have fs: "fst (validate_with_agentshield self st intent) = log"
    and sn: "snd (validate_with_agentshield self st intent) = res"
    using run by simp_all
  have p1: "\<forall>s \<in> set log. stage_failed st s intent \<longrightarrow>
            last log = s \<and>
            res = Inr (Blocked (failure_reason st s intent) (stage_name s)) \<and>
            (\<forall>t \<in> set log. stage_index t \<le> stage_index s)"
    using failed_stage_is_last [of _ self st intent] unfolding fs sn by blast
  have p2: "\<forall>s \<in> set log. \<forall>t \<in> set log. stage_index t < stage_index s \<longrightarrow>
            (\<exists>r. stage_call st t intent = Some (Inr r) \<and> passed r)"
    using earlier_stages_passed [of _ self st intent] unfolding fs by blast
  have p3: "stage_failed st Policy_Validation intent \<and> Policy_Validation \<in> set log \<longrightarrow>
            Honeypot_Detection \<notin> set log \<and> LLM_Analysis \<notin> set log"
    using policy_failure_stops_run [of st intent self] unfolding fs by blast
  have p4: "Honeypot_Detection \<in> set log \<longrightarrow>
            map_of intent (py ''action'') = Some (PStr (py ''swap'')) \<or>
            map_of intent (py ''action'') = Some (PStr (py ''buy''))"
    using honeypot_only_for_swap_buy [of self st intent] unfolding fs by blast
  have p5: "map_of intent (py ''action'') = Some (PStr (py ''transfer'')) \<or>
          map_of intent (py ''action'') = Some (PStr (py ''query'')) \<longrightarrow>
            Honeypot_Detection \<notin> set log \<and>
            (stage_passes (llm_judge self) (stage1_llm_judge st) intent \<and>
             stage_passes (policy_engine self) (stage2_policy st) intent \<longrightarrow>
               res = Inr (Approved (py ''All validation stages passed'')) \<and>
               last log = LLM_Analysis)"
  proof (intro impI conjI)
    assume a: "map_of intent (py ''action'') = Some (PStr (py ''transfer'')) \<or>
          map_of intent (py ''action'') = Some (PStr (py ''query''))"
    show "Honeypot_Detection \<notin> set log"
      using no_honeypot_for_transfer_query [OF a, of self st] unfolding fs .
    assume b: "stage_passes (llm_judge self) (stage1_llm_judge st) intent \<and>
             stage_passes (policy_engine self) (stage2_policy st) intent"
    have "validate_with_agentshield self st intent =
      ((if llm_judge self then [LLM_Intent_Judge] else []) @
       (if policy_engine self then [Policy_Validation] else []) @ [LLM_Analysis],
       Inr (Approved (py ''All validation stages passed'')))"
      using transfer_query_run [OF a] b by blast
    with run show "res = Inr (Approved (py ''All validation stages passed''))"
      and "last log = LLM_Analysis" by auto
  qed
  from p1 p2 p3 p4 p5 show ?thesis by blast
qed

lemma demo_run:
  "validate_with_agentshield \<lparr>llm_judge = True, policy_engine = True\<rparr> demo_stages
      [(py ''action'', PStr (py ''swap''))] =
     ([LLM_Intent_Judge, Policy_Validation],
      Inr (Blocked (py ''exceeds policy limit'') (py ''Policy Validation'')))"
  by (simp add: pipeline_defs demo_stages_def)

theorem pipeline_short_circuit_witness:
  "validate_with_agentshield \<lparr>llm_judge = True, policy_engine = True\<rparr> demo_stages
      [(py ''action'', PStr (py ''swap''))] =
     ([LLM_Intent_Judge, Policy_Validation],
      Inr (Blocked (py ''exceeds policy limit'') (py ''Policy Validation'')))
   \<and> stage_failed demo_stages Policy_Validation [(py ''action'', PStr (py ''swap''))]
   \<and> Honeypot_Detection \<notin> set [LLM_Intent_Judge, Policy_Validation]
   \<and> LLM_Analysis \<notin> set [LLM_Intent_Judge, Policy_Validation]"
proof -
  have failed: "stage_failed demo_stages Policy_Validation [(py ''action'', PStr (py ''swap''))]"
    by (simp add: stage_failed_def demo_stages_def)
  have ran: "Policy_Validation \<in> set [LLM_Intent_Judge, Policy_Validation]"
    by simp
  note third = pipeline_short_circuit [OF demo_run, THEN conjunct2, THEN conjunct2, THEN conjunct1]
  from third [THEN mp, OF conjI, OF failed ran] demo_run failed
  show ?thesis by blast
qed

lemma read_unbound: "metadata_throws w3 \<Longrightarrow> snd (read_token_info w3 a) = None"
  by (auto simp: metadata_throws_def read_token_info_def split: sum.splits)

lemma inspect_unreadable:
  "code_present w3 token_address \<Longrightarrow> metadata_throws w3 \<Longrightarrow>
     inspect_contract w3 token_address = Inl unbound_total_supply"
  using read_unbound [of w3 token_address]
  by (auto simp: inspect_contract_def code_present_def split: sum.splits prod.splits option.splits)

lemma simulate_unreadable:
  "code_present (w rpc_url) token_address \<Longrightarrow> metadata_throws (w rpc_url) \<Longrightarrow>
     simulate_swap w token_address rpc_url amount =
       interaction_failed unbound_total_supply token_address"
  using inspect_unreadable [of "w rpc_url" token_address]
  by (auto simp: simulate_swap_def code_present_def Let_def split: sum.splits)

section \<open>Properties of the swap probe\<close>

text \<open>
  C8.  What the probe does on a token whose contract code is present and one of whose
  metadata calls (\<open>name\<close>, \<open>symbol\<close>, \<open>totalSupply\<close>) throws: the handler of the metadata
  block leaves \<open>total_supply\<close> unbound, the supply check that follows raises
  \<open>UnboundLocalError\<close>, and the outer handler returns \<open>can_buy = None\<close>, \<open>can_sell = None\<close>
  with a contract-interaction error and no \<open>risk\<close> entry.  The token is not reported as
  tradable with risk LOW.
\<close>

theorem unreadable_token_not_tradable:
  assumes "code_present (w rpc_url) token_address"
    and "metadata_throws (w rpc_url)"
  shows "simulate_swap w token_address rpc_url amount =
           interaction_failed unbound_total_supply token_address
       \<and> map_of (simulate_swap w token_address rpc_url amount) (py ''can_buy'') = Some PNone
       \<and> map_of (simulate_swap w token_address rpc_url amount) (py ''can_sell'') = Some PNone
       \<and> map_of (simulate_swap w token_address rpc_url amount) (py ''risk'') = None"
  unfolding simulate_unreadable
      [where w = w and rpc_url = rpc_url and token_address = token_address, OF assms]
  by (simp add: interaction_failed_def)

lemma unreadable_client_code: "code_present unreadable_client demo_token"
  by (simp add: code_present_def unreadable_client_def)

lemma unreadable_client_throws: "metadata_throws unreadable_client"
  by (simp add: metadata_throws_def unreadable_client_def)

theorem unreadable_token_not_tradable_witness:
  "code_present unreadable_client demo_token \<and> metadata_throws unreadable_client
   \<and> map_of (simulate_swap (\<lambda>url. unreadable_client) demo_token (py ''https://evm.cronos.org'') None)
       (py ''can_buy'') = Some PNone
   \<and> map_of (simulate_swap (\<lambda>url. unreadable_client) demo_token (py ''https://evm.cronos.org'') None)
       (py ''risk'') = None"
  using unreadable_token_not_tradable
          [where w = "\<lambda>url. unreadable_client" and rpc_url = "py ''https://evm.cronos.org''"
             and token_address = demo_token and amount = None,
           OF unreadable_client_code unreadable_client_throws]
        unreadable_client_code unreadable_client_throws
  by blast

section \<open>Properties of the token validation endpoint\<close>

text \<open>
  C9.  For a request on a supported chain with a well-formed token address, when
  \<open>simulate_swap\<close> returns \<open>can_buy = None\<close> and \<open>can_sell = None\<close> (as it does for an
  unreachable RPC endpoint), the endpoint answers \<open>is_safe = False\<close>, risk level HIGH and
  the reason "Token cannot be sold (honeypot detected)": \<open>None\<close> fails the sell check.
\<close>

theorem unreachable_rpc_reported_as_honeypot:
  assumes "import_error w = None"
    and "rpc_url_for w (req_chain req) = Some rpc_url"
    and "rpc_url \<noteq> []"
    and "is_address w (req_token_address req)"
    and "map_of (simulate_swap (web3 w) (req_token_address req) rpc_url (req_amount req))
           (py ''can_buy'') = Some PNone"
    and "map_of (simulate_swap (web3 w) (req_token_address req) rpc_url (req_amount req))
           (py ''can_sell'') = Some PNone"
  shows "validate_token w req =
           Inr \<lparr>is_safe = False, risk_level = py ''HIGH'',
                resp_reason = py ''Token cannot be sold (honeypot detected)'',
                details = simulate_swap (web3 w) (req_token_address req) rpc_url (req_amount req),
                can_buy = PNone, can_sell = PNone\<rparr>"
  using assms by (simp add: validate_token_def dict_get_def Let_def)

lemma down_rpc: "rpc_url_for down_world (req_chain demo_request) = Some (py ''https://evm.cronos.org'')"
  by (simp add: rpc_url_for_def rpc_urls_def normalized_chain_def chain_map_def os_getenv_def
      down_world_def demo_request_def str_lower_def lower_cp_def)

lemma down_simulate:
  "simulate_swap (web3 down_world) a u m =
     [(py ''can_buy'', PNone), (py ''can_sell'', PNone),
      (py ''error'', PStr (py ''Cannot connect to RPC'')), (py ''rpc_url'', PStr u)]"
  by (simp add: simulate_swap_def down_world_def unreachable_client_def)

theorem unreachable_rpc_reported_as_honeypot_witness:
  "validate_token down_world demo_request =
     Inr \<lparr>is_safe = False, risk_level = py ''HIGH'',
          resp_reason = py ''Token cannot be sold (honeypot detected)'',
          details =
            [(py ''can_buy'', PNone), (py ''can_sell'', PNone),
             (py ''error'', PStr (py ''Cannot connect to RPC'')),
             (py ''rpc_url'', PStr (py ''https://evm.cronos.org''))],
          can_buy = PNone, can_sell = PNone\<rparr>"
proof -
  have i: "import_error down_world = None"
    by (simp add: down_world_def)
  have n: "py ''https://evm.cronos.org'' \<noteq> []"
    by simp
  have a: "is_address down_world (req_token_address demo_request)"
    by (simp add: down_world_def demo_request_def demo_token_def)
  have b: "map_of (simulate_swap (web3 down_world) (req_token_address demo_request)
                (py ''https://evm.cronos.org'') (req_amount demo_request)) (py ''can_buy'') = Some PNone"
    unfolding down_simulate by simp
  have s: "map_of (simulate_swap (web3 down_world) (req_token_address demo_request)
                (py ''https://evm.cronos.org'') (req_amount demo_request)) (py ''can_sell'') = Some PNone"
    unfolding down_simulate by simp
  show ?thesis
    using unreachable_rpc_reported_as_honeypot [OF i down_rpc n a b s]
    unfolding down_simulate .
qed

lemma b64_value_char: "i < 64 \<Longrightarrow> b64_value (b64_char i) = Some i"
  by (auto simp: b64_value_def b64_char_def)

lemma b64_char_not_pad: "i < 64 \<Longrightarrow> b64_char i \<noteq> 61"
  by (auto simp: b64_char_def)

lemma b64_char_ascii: "i < 64 \<Longrightarrow> b64_char i < 128"
  by (auto simp: b64_char_def)

lemma a2b_step0:
  "i < 64 \<Longrightarrow> a2b_base64 0 l p out (b64_char i # rest) = a2b_base64 (Suc 0) i 0 out rest"
  apply (subst a2b_base64.simps(2))
  apply (simp only: b64_value_char b64_char_not_pad if_False option.case)
  apply simp
  done

lemma a2b_step1:
  "i < 64 \<Longrightarrow> a2b_base64 (Suc 0) l p out (b64_char i # rest) =
     a2b_base64 2 (i mod 16) 0 (out @ [(l * 4 + i div 16) mod 256]) rest"
  apply (subst a2b_base64.simps(2))
  apply (simp only: b64_value_char b64_char_not_pad if_False option.case)
  apply simp
  done

lemma a2b_step2:
  "i < 64 \<Longrightarrow> a2b_base64 2 l p out (b64_char i # rest) =
     a2b_base64 3 (i mod 4) 0 (out @ [(l * 16 + i div 4) mod 256]) rest"
  apply (subst a2b_base64.simps(2))
  apply (simp only: b64_value_char b64_char_not_pad if_False option.case)
  apply simp
  done

lemma a2b_step3:
  "i < 64 \<Longrightarrow> a2b_base64 3 l p out (b64_char i # rest) =
     a2b_base64 0 0 0 (out @ [(l * 64 + i) mod 256]) rest"
  apply (subst a2b_base64.simps(2))
  apply (simp only: b64_value_char b64_char_not_pad if_False option.case)
  apply simp
  done

lemma a2b_pad2: "a2b_base64 2 l 0 out [61, 61] = Inr out"
  by simp

lemma a2b_pad3: "a2b_base64 3 l 0 out [61] = Inr out"
  by simp

lemma radix_div: "y < k \<Longrightarrow> (x * k + y) div k = (x::nat)"
  by simp

lemma radix_mod: "y < k \<Longrightarrow> (x * k + y) mod k = (y::nat)"
  by simp

lemma sextet_bound: "x < m \<Longrightarrow> y < k \<Longrightarrow> x * k + y < m * (k::nat)"
proof -
  assume x: "x < m" and y: "y < k"
  have "x * k + y < x * k + k" using y by simp
  also have "\<dots> = Suc x * k" by simp
  also have "\<dots> \<le> m * k" using x by (intro mult_le_mono1) simp
  finally show ?thesis .
qed

lemma byte_div16: "b < 256 \<Longrightarrow> b div 16 < (16::nat)"
  by simp

lemma byte_div64: "c < 256 \<Longrightarrow> c div 64 < (4::nat)"
  by simp

lemma byte_div4: "a < 256 \<Longrightarrow> a div 4 < (64::nat)"
  by simp

lemma sextet2: "a < 256 \<Longrightarrow> b < 256 \<Longrightarrow> a mod 4 * 16 + b div 16 < (64::nat)"
  using sextet_bound [of "a mod 4" 4 "b div 16" 16] by simp

lemma sextet3: "b < 256 \<Longrightarrow> c < 256 \<Longrightarrow> b mod 16 * 4 + c div 64 < (64::nat)"
  using sextet_bound [of "b mod 16" 16 "c div 64" 4] by simp

lemma byte1:
  "a < 256 \<Longrightarrow> b < 256 \<Longrightarrow>
     (a div 4 * 4 + (a mod 4 * 16 + b div 16) div 16) mod 256 = (a::nat)"
  by (simp only: radix_div [OF byte_div16] div_mult_mod_eq mod_less)

lemma byte2:
  "a < 256 \<Longrightarrow> b < 256 \<Longrightarrow> c < 256 \<Longrightarrow>
     ((a mod 4 * 16 + b div 16) mod 16 * 16 + (b mod 16 * 4 + c div 64) div 4) mod 256 = (b::nat)"
  by (simp only: radix_mod [OF byte_div16] radix_div [OF byte_div64] div_mult_mod_eq mod_less)

lemma byte3:
  "b < 256 \<Longrightarrow> c < 256 \<Longrightarrow>
     ((b mod 16 * 4 + c div 64) mod 4 * 64 + c mod 64) mod 256 = (c::nat)"
  by (simp only: radix_mod [OF byte_div64] div_mult_mod_eq mod_less)

lemma quad_one:
  assumes a: "a < 256"
  shows "a2b_base64 0 l p out [b64_char (a div 4), b64_char (a mod 4 * 16), 61, 61]
         = Inr (out @ [a])"
proof -
  have i2: "a mod 4 * 16 < 64" using sextet2 [OF a, of 0] by simp
  have v: "(a div 4 * 4 + a mod 4 * 16 div 16) mod 256 = a" using byte1 [OF a, of 0] by simp
  show ?thesis
    unfolding a2b_step0 [OF byte_div4 [OF a]] a2b_step1 [OF i2] v a2b_pad2 ..
qed

lemma quad_two:
  assumes a: "a < 256" and b: "b < 256"
  shows "a2b_base64 0 l p out
       [b64_char (a div 4), b64_char (a mod 4 * 16 + b div 16), b64_char (b mod 16 * 4), 61]
     = Inr (out @ [a, b])"
proof -
  have i3: "b mod 16 * 4 < 64" using sextet3 [OF b, of 0] by simp
  have v2: "((a mod 4 * 16 + b div 16) mod 16 * 16 + b mod 16 * 4 div 4) mod 256 = b"
    using byte2 [OF a b, of 0] by simp
  show ?thesis
    unfolding a2b_step0 [OF byte_div4 [OF a]] a2b_step1 [OF sextet2 [OF a b]] a2b_step2 [OF i3]
      byte1 [OF a b] v2 a2b_pad3
    by simp
qed

lemma quad_three:
  assumes a: "a < 256" and b: "b < 256" and c: "c < 256"
  shows "a2b_base64 0 l p out
       (b64_char (a div 4) # b64_char (a mod 4 * 16 + b div 16) #
        b64_char (b mod 16 * 4 + c div 64) # b64_char (c mod 64) # rest)
     = a2b_base64 0 0 0 (out @ [a, b, c]) rest"
proof -
  have i4: "c mod 64 < 64" by simp
  show ?thesis
    unfolding a2b_step0 [OF byte_div4 [OF a]] a2b_step1 [OF sextet2 [OF a b]]
      a2b_step2 [OF sextet3 [OF b c]] a2b_step3 [OF i4]
      byte1 [OF a b] byte2 [OF a b c] byte3 [OF b c]
    by simp
qed

lemma a2b_b64encode:
  "\<forall>b \<in> set bs. b < 256 \<Longrightarrow> a2b_base64 0 l p out (b64encode bs) = Inr (out @ bs)"
proof (induction bs arbitrary: l p out rule: b64encode.induct)
  case 1
  show ?case by simp
next
  case (2 a)
  then have a: "a < 256" by simp
  show ?case by (simp only: b64encode.simps quad_one [OF a])
next
  case (3 a b)
  then have a: "a < 256" and b: "b < 256" by simp_all
  show ?case by (simp only: b64encode.simps quad_two [OF a b])
next
  case (4 a b c rest)
  then have a: "a < 256" and b: "b < 256" and c: "c < 256"
    and r: "\<forall>b \<in> set rest. b < 256" by simp_all
  have "a2b_base64 0 l p out (b64encode (a # b # c # rest)) =
        a2b_base64 0 0 0 (out @ [a, b, c]) (b64encode rest)"
    by (simp only: b64encode.simps quad_three [OF a b c])
  also have "\<dots> = Inr ((out @ [a, b, c]) @ rest)"
    by (rule "4.IH" [OF r])
  finally show ?case by simp
qed

lemma b64encode_ascii: "\<forall>b \<in> set bs. b < 256 \<Longrightarrow> \<forall>c \<in> set (b64encode bs). c < 128"
proof (induction bs rule: b64encode.induct)
  case 1
  show ?case by simp
next
  case (2 a)
  then have a: "a < 256" by simp
  have "a mod 4 * 16 < 64" using sextet2 [OF a, of 0] by simp
  then show ?case
    using b64_char_ascii [OF byte_div4 [OF a]] b64_char_ascii [of "a mod 4 * 16"] by simp
next
  case (3 a b)
  then have a: "a < 256" and b: "b < 256" by simp_all
  have "b mod 16 * 4 < 64" using sextet3 [OF b, of 0] by simp
  then show ?case
    using b64_char_ascii [OF byte_div4 [OF a]] b64_char_ascii [OF sextet2 [OF a b]]
      b64_char_ascii [of "b mod 16 * 4"] by simp
next
  case (4 a b c rest)
  then have a: "a < 256" and b: "b < 256" and c: "c < 256"
    and r: "\<forall>b \<in> set rest. b < 256" by simp_all
  have "c mod 64 < 64" by simp
  then show ?case
    using b64_char_ascii [OF byte_div4 [OF a]] b64_char_ascii [OF sextet2 [OF a b]]
      b64_char_ascii [OF sextet3 [OF b c]] b64_char_ascii [of "c mod 64"] "4.IH" [OF r]
    by simp
qed

lemma b64_roundtrip:
  assumes "\<forall>b \<in> set bs. b < 256"
  shows "b64decode (b64encode bs) = Inr bs"
proof -
  have "\<not> (\<exists>c \<in> set (b64encode bs). c \<ge> 128)"
    using b64encode_ascii [OF assms] by (meson not_le)
  then show ?thesis
    unfolding b64decode_def using a2b_b64encode [OF assms, of 0 0 "[]"] by simp
qed

lemma utf8_encode_ascii: "\<forall>c \<in> set s. c < 128 \<Longrightarrow> utf8_encode s = Some s"
  by (induction s) (auto simp: utf8_encode_cp_def)

lemma utf8_decode_ascii: "\<forall>c \<in> set s. c < 128 \<Longrightarrow> utf8_decode s = Some s"
  by (induction s) auto


lemma hex_value_digit: "d < 16 \<Longrightarrow> hex_value (hex_digit d) = Some d"
  by (simp add: hex_value_def hex_digit_def)

lemma nibbles:
  assumes "n < 65536"
  shows "((n div 4096 mod 16 * 16 + n div 256 mod 16) * 16 + n div 16 mod 16) * 16 + n mod 16
         = (n::nat)"
proof -
  have a: "n div 256 = n div 16 div 16" and b: "n div 4096 = n div 16 div 16 div 16"
    by (simp_all add: div_mult2_eq [symmetric])
  have c: "n div 16 div 16 div 16 < 16" using assms unfolding b [symmetric] by simp
  show ?thesis
    unfolding a b by (simp only: mod_less [OF c] div_mult_mod_eq)
qed

lemma hex4_u_escape:
  assumes "n < 65536"
  shows "hex4 (hex_digit (n div 4096 mod 16)) (hex_digit (n div 256 mod 16))
              (hex_digit (n div 16 mod 16)) (hex_digit (n mod 16)) = Some n"
proof -
  have "hex4 (hex_digit (n div 4096 mod 16)) (hex_digit (n div 256 mod 16))
              (hex_digit (n div 16 mod 16)) (hex_digit (n mod 16)) =
        Some (((n div 4096 mod 16 * 16 + n div 256 mod 16) * 16 + n div 16 mod 16) * 16 + n mod 16)"
    unfolding hex4_def by (simp only: hex_value_digit mod_less_divisor zero_less_numeral
        prod.case option.case)
  then show ?thesis
    unfolding nibbles [OF assms] .
qed

lemma cons_char_simps [simp]:
  "cons_char c None = None"
  "cons_char c (Some (s, rest)) = Some (c # s, rest)"
  by (simp_all add: cons_char_def)

lemma scan_quote: "scanstring (34 # r) = Some ([], r)"
  by simp

lemma scan_plain:
  "c \<noteq> 34 \<Longrightarrow> c \<noteq> 92 \<Longrightarrow> 32 \<le> c \<Longrightarrow> scanstring (c # r) = cons_char c (scanstring r)"
  by simp

lemma scan_short:
  "unescape e = Some x \<Longrightarrow> e \<noteq> 117 \<Longrightarrow> scanstring (92 # e # r) = cons_char x (scanstring r)"
  by simp

lemma scan_u_bmp:
  assumes "hex4 h1 h2 h3 h4 = Some u" and "u < 0xD800 \<or> 0xDBFF < u" and "t \<noteq> []"
  shows "scanstring (92 # 117 # h1 # h2 # h3 # h4 # t) = cons_char u (scanstring t)"
  using assms by (subst scanstring.simps(2)) auto

lemma scan_u_pair:
  assumes "hex4 h1 h2 h3 h4 = Some u" and "0xD800 \<le> u" and "u \<le> 0xDBFF"
    and "hex4 g1 g2 g3 g4 = Some u2" and "0xDC00 \<le> u2" and "u2 \<le> 0xDFFF" and "t \<noteq> []"
  shows "scanstring (92 # 117 # h1 # h2 # h3 # h4 # 92 # 117 # g1 # g2 # g3 # g4 # t) =
           cons_char (0x10000 + ((u - 0xD800) * 1024 + (u2 - 0xDC00))) (scanstring t)"
  using assms by (subst scanstring.simps(2)) simp

lemma scan_u_escape:
  assumes n: "n < 65536" and ns: "n < 0xD800 \<or> 0xDBFF < n" and t: "t \<noteq> []"
  shows "scanstring (u_escape n @ t) = cons_char n (scanstring t)"
  unfolding u_escape_def append.simps
  by (rule scan_u_bmp [OF hex4_u_escape [OF n] ns t])

lemma scan_u_escape_pair:
  assumes hi: "0xD800 \<le> hi" "hi \<le> 0xDBFF" and lo: "0xDC00 \<le> lo" "lo \<le> 0xDFFF"
    and t: "t \<noteq> []"
  shows "scanstring (u_escape hi @ u_escape lo @ t) =
           cons_char (0x10000 + ((hi - 0xD800) * 1024 + (lo - 0xDC00))) (scanstring t)"
proof -
  have h: "hi < 65536" and l: "lo < 65536" using hi lo by simp_all
  show ?thesis
    unfolding u_escape_def append.simps
    by (rule scan_u_pair [OF hex4_u_escape [OF h] hi hex4_u_escape [OF l] lo t])
qed

lemma scan_astral:
  assumes c: "0x10000 \<le> c" "c < 0x110000" and t: "t \<noteq> []"
  shows "scanstring (u_escape (0xD800 + (c - 0x10000) div 1024 mod 1024)
                     @ u_escape (0xDC00 + (c - 0x10000) mod 1024) @ t) =
           cons_char c (scanstring t)"
proof -
  define x where "x = c - 0x10000"
  have x: "x < 1024 * 1024" using c by (simp add: x_def)
  have d: "x div 1024 < 1024" using x by simp
  have m: "x mod 1024 < 1024" by simp
  have hi: "0xD800 \<le> 0xD800 + x div 1024" "0xD800 + x div 1024 \<le> 0xDBFF" using d by simp_all
  have lo: "0xDC00 \<le> 0xDC00 + x mod 1024" "0xDC00 + x mod 1024 \<le> 0xDFFF" using m by simp_all
  have joined: "0x10000 + ((0xD800 + x div 1024 - 0xD800) * 1024 + (0xDC00 + x mod 1024 - 0xDC00)) = c"
    using c by (simp add: x_def)
  show ?thesis
    using scan_u_escape_pair [OF hi lo t]
    unfolding joined x_def [symmetric] mod_less [OF d] .
qed

lemma scan_escape_cp:
  assumes s: "scalar c" and t: "t \<noteq> []"
  shows "scanstring (escape_cp c @ t) = cons_char c (scanstring t)"
proof -
  consider (short) "c = 34 \<or> c = 92 \<or> c = 10 \<or> c = 13 \<or> c = 9 \<or> c = 8 \<or> c = 12"
    | (plain) "c \<noteq> 34" "c \<noteq> 92" "32 \<le> c" "c \<le> 126"
    | (bmp) "c \<noteq> 10" "c \<noteq> 13" "c \<noteq> 9" "c \<noteq> 8" "c \<noteq> 12" "c < 32 \<or> 126 < c" "c < 0x10000"
    | (astral) "0x10000 \<le> c"
    by linarith
  then show ?thesis
  proof cases
    case short
    then show ?thesis
      by (auto simp: escape_cp_def unescape_def scan_short)
  next
    case plain
    then have "escape_cp c = [c]" by (simp add: escape_cp_def)
    then show ?thesis using plain by (simp add: scan_plain)
  next
    case bmp
    then have e: "escape_cp c = u_escape c" by (auto simp: escape_cp_def)
    have ns: "c < 0xD800 \<or> 0xDBFF < c" using s by (auto simp: scalar_def)
    show ?thesis unfolding e by (rule scan_u_escape [OF bmp(7) ns t])
  next
    case astral
    then have e: "escape_cp c = u_escape (0xD800 + (c - 0x10000) div 1024 mod 1024)
                     @ u_escape (0xDC00 + (c - 0x10000) mod 1024)"
      by (simp add: escape_cp_def)
    have "c < 0x110000" using s by (simp add: scalar_def)
    from scan_astral [OF astral this t] show ?thesis unfolding e by simp
  qed
qed

lemma scan_encoded:
  "wf_text s \<Longrightarrow> scanstring (concat (map escape_cp s) @ 34 # rest) = Some (s, rest)"
proof (induction s)
  case Nil
  show ?case by (simp add: scan_quote)
next
  case (Cons c s)
  then have c: "scalar c" and s: "wf_text s" by (simp_all add: wf_text_def)
  have "scanstring (concat (map escape_cp (c # s)) @ 34 # rest) =
        scanstring (escape_cp c @ (concat (map escape_cp s) @ 34 # rest))"
    by simp
  also have "\<dots> = cons_char c (scanstring (concat (map escape_cp s) @ 34 # rest))"
    by (rule scan_escape_cp [OF c]) simp
  also have "\<dots> = Some (c # s, rest)"
    using Cons.IH [OF s] by simp
  finally show ?case .
qed

lemma dec_digits_ne: "dec_digits n \<noteq> []"
  by (subst dec_digits.simps) simp

lemma dec_digits_digits: "list_all is_digit (dec_digits n)"
proof (induction n rule: dec_digits.induct)
  case (1 n)
  show ?case
  proof (cases "n < 10")
    case True
    then show ?thesis by (subst dec_digits.simps) (simp add: is_digit_def)
  next
    case False
    have "n mod 10 < 10" by simp
    then have "is_digit (48 + n mod 10)" unfolding is_digit_def by linarith
    then show ?thesis
      using False 1 by (subst dec_digits.simps) simp
  qed
qed

lemma nat_of_digits_snoc: "nat_of_digits (ds @ [d]) = nat_of_digits ds * 10 + (d - 48)"
  by (simp add: nat_of_digits_def)

lemma nat_of_dec_digits: "nat_of_digits (dec_digits n) = n"
proof (induction n rule: dec_digits.induct)
  case (1 n)
  show ?case
  proof (cases "n < 10")
    case True
    then show ?thesis by (subst dec_digits.simps) (simp add: nat_of_digits_def)
  next
    case False
    then have "nat_of_digits (dec_digits n) = nat_of_digits (dec_digits (n div 10)) * 10 + n mod 10"
      by (subst dec_digits.simps) (simp add: nat_of_digits_snoc)
    also have "\<dots> = n div 10 * 10 + n mod 10" using 1 False by simp
    finally show ?thesis by simp
  qed
qed

lemma dec_digits_zero: "dec_digits 0 = [48]"
  by (subst dec_digits.simps) simp

lemma dec_digits_hd: "0 < n \<Longrightarrow> hd (dec_digits n) \<noteq> 48"
proof (induction n rule: dec_digits.induct)
  case (1 n)
  show ?case
  proof (cases "n < 10")
    case True
    then show ?thesis using 1(2) by (subst dec_digits.simps) simp
  next
    case False
    then have "0 < n div 10" by simp
    with 1 False have "hd (dec_digits (n div 10)) \<noteq> 48" by simp
    then show ?thesis
      using False by (subst dec_digits.simps) (simp add: dec_digits_ne)
  qed
qed

lemma digits_then_end:
  assumes "list_all is_digit ds" and "number_end rest"
  shows "takeWhile is_digit (ds @ rest) = ds" and "dropWhile is_digit (ds @ rest) = rest"
proof -
  have r: "takeWhile is_digit rest = []" "dropWhile is_digit rest = rest"
    using assms(2) by (cases rest; simp add: number_end_def)+
  have a: "\<forall>x \<in> set ds. is_digit x" using assms(1) by (simp add: list_all_iff)
  show "takeWhile is_digit (ds @ rest) = ds"
    using a r by (simp add: takeWhile_append2)
  show "dropWhile is_digit (ds @ rest) = rest"
    using a r by (simp add: dropWhile_append2)
qed

lemma fraction_end: "number_end rest \<Longrightarrow> fraction_part rest = ([], rest)"
  by (cases rest) (auto simp: fraction_part_def number_end_def split: list.splits)

lemma exponent_end: "number_end rest \<Longrightarrow> exponent_part rest = ([], rest)"
  by (cases rest) (auto simp: exponent_part_def number_end_def)

text \<open>The digits of a natural number, read back as a number.\<close>

lemma match_digits:
  assumes e: "number_end rest"
  shows "match_number (dec_digits n @ rest) = Some (PInt (int n), rest)"
proof -
  obtain d ds where dd: "dec_digits n = d # ds"
    using dec_digits_ne [of n] by (cases "dec_digits n") auto
  have all: "list_all is_digit (d # ds)" using dec_digits_digits [of n] unfolding dd .
  then have d: "is_digit d" and ds: "list_all is_digit ds" by simp_all
  have d45: "d \<noteq> 45" using d by (simp add: is_digit_def)
  have val: "nat_of_digits (d # ds) = n" using nat_of_dec_digits [of n] unfolding dd .
  show ?thesis
  proof (cases "d = 48")
    case True
    have "n = 0"
    proof (rule ccontr)
      assume "n \<noteq> 0"
      then have "hd (dec_digits n) \<noteq> 48" using dec_digits_hd [of n] by simp
      then show False using True dd by simp
    qed
    then have ds0: "ds = []" using dd dec_digits_zero by simp
    have v0: "nat_of_digits [48] = n" using val True ds0 by simp
    show ?thesis
      unfolding dd ds0 True match_number_def
      using d45 True fraction_end [OF e] exponent_end [OF e] v0
      by (simp add: is_digit_def)
  next
    case False
    show ?thesis
      unfolding dd match_number_def
      using d45 d False digits_then_end [OF ds e] fraction_end [OF e] exponent_end [OF e] val
      by simp
  qed
qed

lemma match_neg_digits:
  assumes e: "number_end rest"
  shows "match_number (45 # dec_digits n @ rest) = Some (PInt (- int n), rest)"
proof -
  obtain d ds where dd: "dec_digits n = d # ds"
    using dec_digits_ne [of n] by (cases "dec_digits n") auto
  have all: "list_all is_digit (d # ds)" using dec_digits_digits [of n] unfolding dd .
  then have d: "is_digit d" and ds: "list_all is_digit ds" by simp_all
  have val: "nat_of_digits (d # ds) = n" using nat_of_dec_digits [of n] unfolding dd .
  show ?thesis
  proof (cases "d = 48")
    case True
    have "n = 0"
    proof (rule ccontr)
      assume "n \<noteq> 0"
      then have "hd (dec_digits n) \<noteq> 48" using dec_digits_hd [of n] by simp
      then show False using True dd by simp
    qed
    then have ds0: "ds = []" using dd dec_digits_zero by simp
    have v0: "nat_of_digits [48] = n" using val True ds0 by simp
    show ?thesis
      unfolding dd ds0 True match_number_def
      using True fraction_end [OF e] exponent_end [OF e] v0
      by (simp add: is_digit_def)
  next
    case False
    show ?thesis
      unfolding dd match_number_def
      using d False digits_then_end [OF ds e] fraction_end [OF e] exponent_end [OF e] val
      by simp
  qed
qed

lemma match_str_int:
  assumes e: "number_end rest"
  shows "match_number (str_int i @ rest) = Some (PInt i, rest)"
proof (cases "i < 0")
  case True
  then show ?thesis
    using match_neg_digits [OF e, of "nat (- i)"] by (simp add: str_int_def)
next
  case False
  then show ?thesis
    using match_digits [OF e, of "nat i"] by (simp add: str_int_def)
qed

lemma skip_ws_space: "skip_ws (32 # t) = skip_ws t"
  by (simp add: skip_ws_def is_ws_def)

lemma skip_ws_stop: "\<not> is_ws c \<Longrightarrow> skip_ws (c # t) = c # t"
  by (simp add: skip_ws_def)

lemma skip_ws_Nil: "skip_ws [] = []"
  by (simp add: skip_ws_def)

lemma pv_string:
  "parse_value (Suc n) (34 # r) =
     (case scanstring r of None \<Rightarrow> Invalid | Some (t, rest) \<Rightarrow> Parsed (PStr t, rest))"
  by (subst parse_value.simps(2)) simp

lemma pv_object_empty: "parse_value (Suc n) (123 # 125 # r) = Parsed (PDict [], r)"
  by (subst parse_value.simps(2)) (simp add: skip_ws_stop is_ws_def)

lemma pv_object:
  "\<not> is_ws c \<Longrightarrow> c \<noteq> 125 \<Longrightarrow>
   parse_value (Suc n) (123 # c # r) =
     (case parse_members n [] (c # r) of
        Parsed (kvs, rest) \<Rightarrow> Parsed (PDict kvs, rest)
      | Invalid \<Rightarrow> Invalid
      | Exhausted \<Rightarrow> Exhausted)"
  by (subst parse_value.simps(2)) (simp add: skip_ws_stop)

lemma pv_array_empty: "parse_value (Suc n) (91 # 93 # r) = Parsed (PList [], r)"
  by (subst parse_value.simps(2)) (simp add: skip_ws_stop is_ws_def)

lemma pv_array:
  "\<not> is_ws c \<Longrightarrow> c \<noteq> 93 \<Longrightarrow>
   parse_value (Suc n) (91 # c # r) =
     (case parse_elements n [] (c # r) of
        Parsed (xs, rest) \<Rightarrow> Parsed (PList xs, rest)
      | Invalid \<Rightarrow> Invalid
      | Exhausted \<Rightarrow> Exhausted)"
  by (subst parse_value.simps(2)) (simp add: skip_ws_stop)

lemma pv_null: "parse_value (Suc n) (py ''null'' @ r) = Parsed (PNone, r)"
  by (subst parse_value.simps(2)) (simp add: starts_with_def)

lemma pv_true: "parse_value (Suc n) (py ''true'' @ r) = Parsed (PBool True, r)"
  by (subst parse_value.simps(2)) (simp add: starts_with_def)

lemma pv_false: "parse_value (Suc n) (py ''false'' @ r) = Parsed (PBool False, r)"
  by (subst parse_value.simps(2)) (simp add: starts_with_def)

lemma pv_digit:
  "is_digit d \<Longrightarrow>
   parse_value (Suc n) (d # r) =
     (case match_number (d # r) of None \<Rightarrow> Invalid | Some x \<Rightarrow> Parsed x)"
  by (subst parse_value.simps(2)) (auto simp: starts_with_def is_digit_def)

lemma pv_minus_digit:
  "is_digit d \<Longrightarrow>
   parse_value (Suc n) (45 # d # r) =
     (case match_number (45 # d # r) of None \<Rightarrow> Invalid | Some x \<Rightarrow> Parsed x)"
  by (subst parse_value.simps(2)) (auto simp: starts_with_def is_digit_def)

lemma pv_int:
  assumes e: "number_end rest"
  shows "parse_value (Suc n) (str_int i @ rest) = Parsed (PInt i, rest)"
proof -
  obtain d ds where dd: "dec_digits (nat \<bar>i\<bar>) = d # ds"
    using dec_digits_ne [of "nat \<bar>i\<bar>"] by (cases "dec_digits (nat \<bar>i\<bar>)") auto
  have d: "is_digit d" using dec_digits_digits [of "nat \<bar>i\<bar>"] unfolding dd by simp
  show ?thesis
  proof (cases "i < 0")
    case True
    then have s: "str_int i @ rest = 45 # d # (ds @ rest)"
      using dd by (simp add: str_int_def abs_if)
    show ?thesis
      using match_str_int [OF e, of i] unfolding s pv_minus_digit [OF d] by simp
  next
    case False
    then have s: "str_int i @ rest = d # (ds @ rest)"
      using dd by (simp add: str_int_def abs_if)
    show ?thesis
      using match_str_int [OF e, of i] unfolding s pv_digit [OF d] by simp
  qed
qed

lemma pv_str:
  assumes "wf_text s"
  shows "parse_value (Suc n) (encode_basestring_ascii s @ rest) = Parsed (PStr s, rest)"
  unfolding encode_basestring_ascii_def
  using scan_encoded [OF assms, of rest] by (simp add: pv_string)

lemma dumps_first:
  assumes "wf_val v"
  shows "\<exists>c r. dumps v = c # r \<and> \<not> is_ws c \<and> c \<noteq> 93 \<and> c \<noteq> 125"
proof (cases v)
  case (PInt i)
  obtain d ds where dd: "dec_digits (nat \<bar>i\<bar>) = d # ds"
    using dec_digits_ne [of "nat \<bar>i\<bar>"] by (cases "dec_digits (nat \<bar>i\<bar>)") auto
  have d: "is_digit d" using dec_digits_digits [of "nat \<bar>i\<bar>"] unfolding dd by simp
  show ?thesis
  proof (cases "i < 0")
    case True
    then have "dumps v = 45 # d # ds" using dd PInt by (simp add: str_int_def abs_if)
    then show ?thesis by (simp add: is_ws_def)
  next
    case False
    then have "dumps v = d # ds" using dd PInt by (simp add: str_int_def abs_if)
    then show ?thesis using d by (auto simp: is_ws_def is_digit_def)
  qed
next
  case (PFloat t)
  then show ?thesis using assms by simp
qed (auto simp: is_ws_def encode_basestring_ascii_def)

lemma dumps_list_first:
  assumes "wf_vals xs" and "xs \<noteq> []"
  shows "\<exists>c r. dumps_list xs @ t = c # r \<and> \<not> is_ws c \<and> c \<noteq> 93"
proof -
  obtain x ys where xs: "xs = x # ys" using assms(2) by (cases xs) auto
  then have "wf_val x" using assms(1) by simp
  from dumps_first [OF this] obtain c r where "dumps x = c # r" "\<not> is_ws c" "c \<noteq> 93"
    by blast
  then show ?thesis unfolding xs by simp
qed

lemma dumps_items_first:
  assumes "kvs \<noteq> []"
  shows "\<exists>r. dumps_items kvs @ t = 34 # r"
proof -
  obtain k v ys where "kvs = (k, v) # ys" using assms by (cases kvs) auto
  then show ?thesis by (simp add: encode_basestring_ascii_def)
qed

lemma update_fresh: "k \<notin> fst ` set acc \<Longrightarrow> AList.update k v acc = acc @ [(k, v)]"
  by (induction acc) auto

lemma number_end_close: "number_end (93 # r)" "number_end (125 # r)" "number_end (44 # r)"
  "number_end []"
  by (simp_all add: number_end_def is_digit_def)

text \<open>One element of an array, followed by the end of the array or by a separator.\<close>

lemma pe_last:
  assumes "parse_value n (txt @ 93 # rest) = Parsed (x, 93 # rest)"
  shows "parse_elements (Suc n) acc (txt @ 93 # rest) = Parsed (acc @ [x], rest)"
  using assms by (subst parse_elements.simps(2)) (simp add: skip_ws_stop is_ws_def)

lemma pe_more:
  assumes "parse_value n (txt @ 44 # 32 # nxt) = Parsed (x, 44 # 32 # nxt)"
    and "skip_ws nxt = nxt"
  shows "parse_elements (Suc n) acc (txt @ 44 # 32 # nxt) = parse_elements n (acc @ [x]) nxt"
  using assms
  by (subst parse_elements.simps(2)) (simp add: skip_ws_stop skip_ws_space is_ws_def)

text \<open>One member of an object.\<close>

lemma pm_last:
  assumes k: "wf_text k"
    and v: "parse_value n (txt @ 125 # rest) = Parsed (x, 125 # rest)"
    and t: "skip_ws (txt @ 125 # rest) = txt @ 125 # rest"
  shows "parse_members (Suc n) acc (encode_basestring_ascii k @ 58 # 32 # txt @ 125 # rest) =
           Parsed (AList.update k x acc, rest)"
proof -
  have s: "scanstring (concat (map escape_cp k) @ 34 # 58 # 32 # txt @ 125 # rest) =
           Some (k, 58 # 32 # txt @ 125 # rest)"
    by (rule scan_encoded [OF k])
  show ?thesis
    unfolding encode_basestring_ascii_def
    by (subst parse_members.simps(2))
       (simp add: s skip_ws_stop skip_ws_space is_ws_def t v)
qed

lemma pm_more:
  assumes k: "wf_text k"
    and v: "parse_value n (txt @ 44 # 32 # nxt) = Parsed (x, 44 # 32 # nxt)"
    and t: "skip_ws (txt @ 44 # 32 # nxt) = txt @ 44 # 32 # nxt"
    and m: "skip_ws nxt = nxt"
  shows "parse_members (Suc n) acc (encode_basestring_ascii k @ 58 # 32 # txt @ 44 # 32 # nxt) =
           parse_members n (AList.update k x acc) nxt"
proof -
  have s: "scanstring (concat (map escape_cp k) @ 34 # 58 # 32 # txt @ 44 # 32 # nxt) =
           Some (k, 58 # 32 # txt @ 44 # 32 # nxt)"
    by (rule scan_encoded [OF k])
  show ?thesis
    unfolding encode_basestring_ascii_def
    by (subst parse_members.simps(2))
       (simp add: s skip_ws_stop skip_ws_space is_ws_def t v m)
qed

lemma skip_ws_dumps: "wf_val v \<Longrightarrow> skip_ws (dumps v @ t) = dumps v @ t"
  using dumps_first [of v] by (auto simp: skip_ws_stop)

lemma skip_ws_dumps_list: "wf_vals xs \<Longrightarrow> xs \<noteq> [] \<Longrightarrow> skip_ws (dumps_list xs @ t) = dumps_list xs @ t"
  using dumps_list_first [of xs t] by (auto simp: skip_ws_stop)

lemma skip_ws_dumps_items: "kvs \<noteq> [] \<Longrightarrow> skip_ws (dumps_items kvs @ t) = dumps_items kvs @ t"
  using dumps_items_first [of kvs t] by (auto simp: skip_ws_stop is_ws_def)

declare parse_value.simps(2) [simp del]
declare parse_members.simps(2) [simp del]
declare parse_elements.simps(2) [simp del]

lemma loads_dumps_aux:
  "wf_val v \<Longrightarrow> fuel v \<le> n \<Longrightarrow> number_end rest \<Longrightarrow>
     parse_value n (dumps v @ rest) = Parsed (v, rest)"
  "wf_vals xs \<Longrightarrow> xs \<noteq> [] \<Longrightarrow> fuel_list xs \<le> n \<Longrightarrow>
     parse_elements n acc (dumps_list xs @ 93 # rest) = Parsed (acc @ xs, rest)"
  "wf_items kvs \<Longrightarrow> kvs \<noteq> [] \<Longrightarrow> fuel_items kvs \<le> n \<Longrightarrow>
   distinct (map fst dacc @ map fst kvs) \<Longrightarrow>
     parse_members n dacc (dumps_items kvs @ 125 # rest) = Parsed (dacc @ kvs, rest)"
proof (induction v and xs and kvs arbitrary: n rest and n acc rest and n dacc rest
    rule: dumps_dumps_list_dumps_items.induct)
  case 1
  then obtain m where n: "n = Suc m" by (cases n) auto
  show ?case unfolding n using pv_null [of m rest] by simp
next
  case (2 b)
  then obtain m where n: "n = Suc m" by (cases n) auto
  show ?case
  proof (cases b)
    case True
    then show ?thesis unfolding n using pv_true [of m rest] by simp
  next
    case False
    then show ?thesis unfolding n using pv_false [of m rest] by simp
  qed
next
  case (3 i)
  then obtain m where n: "n = Suc m" by (cases n) auto
  show ?case unfolding n using pv_int [OF 3(3), of m i] by simp
next
  case (4 t)
  then show ?case by simp
next
  case (5 s)
  then obtain m where n: "n = Suc m" by (cases n) auto
  from 5 have "wf_text s" by simp
  from pv_str [OF this, of m rest] show ?case unfolding n by simp
next
  case (6 xs)
  then obtain m where n: "n = Suc m" and m: "fuel_list xs \<le> m" by (cases n) auto
  from 6 have wf: "wf_vals xs" by simp
  show ?case
  proof (cases "xs = []")
    case True
    then have "dumps (PList xs) @ rest = 91 # 93 # rest" by simp
    then show ?thesis unfolding n using True pv_array_empty [of m rest] by simp
  next
    case False
    from dumps_list_first [OF wf False, of "93 # rest"]
    obtain c r where cr: "dumps_list xs @ 93 # rest = c # r" and c: "\<not> is_ws c" "c \<noteq> 93"
      by blast
    have e: "parse_elements m [] (c # r) = Parsed (xs, rest)"
      using "6.IH" [OF wf False m, of "[]" rest] unfolding cr by simp
    have t: "dumps (PList xs) @ rest = 91 # c # r" using cr by simp
    show ?thesis unfolding n t pv_array [OF c] e by simp
  qed
next
  case (7 kvs)
  then obtain m where n: "n = Suc m" and m: "fuel_items kvs \<le> m" by (cases n) auto
  from 7 have wf: "wf_items kvs" and d: "distinct (map fst kvs)" by simp_all
  show ?case
  proof (cases "kvs = []")
    case True
    then have "dumps (PDict kvs) @ rest = 123 # 125 # rest" by simp
    then show ?thesis unfolding n using True pv_object_empty [of m rest] by simp
  next
    case False
    from dumps_items_first [OF False, of "125 # rest"]
    obtain r where cr: "dumps_items kvs @ 125 # rest = 34 # r" by blast
    have c: "\<not> is_ws 34" "(34::nat) \<noteq> 125" by (simp_all add: is_ws_def)
    have e: "parse_members m [] (34 # r) = Parsed (kvs, rest)"
      using "7.IH" [OF wf False m, of "[]" rest] d unfolding cr by simp
    have t: "dumps (PDict kvs) @ rest = 123 # 34 # r" using cr by simp
    show ?thesis unfolding n t pv_object [OF c] e by simp
  qed
next
  case 8
  then show ?case by simp
next
  case (9 x xs)
  then obtain m where n: "n = Suc m" and mx: "fuel x \<le> m" and ml: "fuel_list xs \<le> m"
    by (cases n) auto
  from 9 have wx: "wf_val x" and wl: "wf_vals xs" by simp_all
  show ?case
  proof (cases "xs = []")
    case True
    have "parse_value m (dumps x @ 93 # rest) = Parsed (x, 93 # rest)"
      by (rule "9.IH"(1) [OF wx mx number_end_close(1)])
    from pe_last [OF this, of acc] show ?thesis unfolding n using True by simp
  next
    case False
    have v: "parse_value m (dumps x @ 44 # 32 # dumps_list xs @ 93 # rest) =
             Parsed (x, 44 # 32 # dumps_list xs @ 93 # rest)"
      by (rule "9.IH"(1) [OF wx mx number_end_close(3)])
    have "parse_elements (Suc m) acc (dumps x @ 44 # 32 # dumps_list xs @ 93 # rest) =
          parse_elements m (acc @ [x]) (dumps_list xs @ 93 # rest)"
      by (rule pe_more [OF v skip_ws_dumps_list [OF wl False]])
    also have "\<dots> = Parsed ((acc @ [x]) @ xs, rest)"
      by (rule "9.IH"(2) [OF False wl False ml])
    finally show ?thesis unfolding n using False by simp
  qed
next
  case 10
  then show ?case by simp
next
  case (11 k v kvs)
  then obtain m where n: "n = Suc m" and mv: "fuel v \<le> m" and mk: "fuel_items kvs \<le> m"
    by (cases n) auto
  from 11 have wk: "wf_text k" and wv: "wf_val v" and wi: "wf_items kvs" by simp_all
  from "11.prems"(4) have fresh: "k \<notin> fst ` set dacc"
    and dist: "distinct (map fst (dacc @ [(k, v)]) @ map fst kvs)" by auto
  show ?case
  proof (cases "kvs = []")
    case True
    have "parse_value m (dumps v @ 125 # rest) = Parsed (v, 125 # rest)"
      by (rule "11.IH"(1) [OF wv mv number_end_close(2)])
    from pm_last [OF wk this skip_ws_dumps [OF wv], of dacc]
    show ?thesis unfolding n using True by (simp add: update_fresh [OF fresh])
  next
    case False
    have p: "parse_value m (dumps v @ 44 # 32 # dumps_items kvs @ 125 # rest) =
             Parsed (v, 44 # 32 # dumps_items kvs @ 125 # rest)"
      by (rule "11.IH"(1) [OF wv mv number_end_close(3)])
    have "parse_members (Suc m) dacc
            (encode_basestring_ascii k @ 58 # 32 # dumps v @ 44 # 32 # dumps_items kvs @ 125 # rest) =
          parse_members m (AList.update k v dacc) (dumps_items kvs @ 125 # rest)"
      by (rule pm_more [OF wk p skip_ws_dumps [OF wv] skip_ws_dumps_items [OF False]])
    also have "\<dots> = parse_members m (dacc @ [(k, v)]) (dumps_items kvs @ 125 # rest)"
      by (simp add: update_fresh [OF fresh])
    also have "\<dots> = Parsed ((dacc @ [(k, v)]) @ kvs, rest)"
      by (rule "11.IH"(2) [OF False wi False mk dist])
    finally show ?thesis unfolding n using False by simp
  qed
qed

lemma length_dec_digits: "0 < length (dec_digits n)"
  using dec_digits_ne [of n] by simp

lemma fuel_bound:
  "wf_val v \<Longrightarrow> fuel v \<le> length (dumps v)"
  "wf_vals xs \<Longrightarrow> fuel_list xs \<le> Suc (length (dumps_list xs))"
  "wf_items kvs \<Longrightarrow> fuel_items kvs \<le> Suc (length (dumps_items kvs))"
proof (induction v and xs and kvs rule: dumps_dumps_list_dumps_items.induct)
  case (3 i)
  show ?case using length_dec_digits [of "nat i"] length_dec_digits [of "nat (- i)"]
    by (simp add: str_int_def Suc_le_eq)
next
  case (9 x xs)
  then show ?case by (cases "xs = []") auto
next
  case (11 k v kvs)
  then show ?case by (cases "kvs = []") (auto simp: encode_basestring_ascii_def)
qed (auto simp: encode_basestring_ascii_def)

lemma loads_dumps:
  assumes "wf_val v"
  shows "loads (dumps v) = Inr v"
proof -
  have f: "fuel v \<le> Suc (length (dumps v))" using fuel_bound(1) [OF assms] by simp
  have "parse_value (Suc (length (dumps v))) (dumps v @ []) = Parsed (v, [])"
    by (rule loads_dumps_aux(1) [OF assms f number_end_close(4)])
  then show ?thesis
    unfolding loads_def using skip_ws_dumps [OF assms, of "[]"] by (simp add: skip_ws_Nil)
qed


lemma hex_digit_ascii: "d < 16 \<Longrightarrow> hex_digit d < 128"
  by (simp add: hex_digit_def)

lemma u_escape_ascii: "list_all (\<lambda>c. c < 128) (u_escape n)"
  unfolding u_escape_def by (simp add: hex_digit_ascii)

lemma escape_cp_ascii: "list_all (\<lambda>c. c < 128) (escape_cp c)"
  unfolding escape_cp_def by (simp add: u_escape_ascii)

lemma concat_escape_ascii: "list_all (\<lambda>c. c < 128) (concat (map escape_cp s))"
  by (induction s) (simp_all add: escape_cp_ascii)

lemma encode_basestring_ascii_ascii: "list_all (\<lambda>c. c < 128) (encode_basestring_ascii s)"
  unfolding encode_basestring_ascii_def by (simp add: concat_escape_ascii)

lemma dec_digits_ascii: "list_all (\<lambda>c. c < 128) (dec_digits n)"
  using dec_digits_digits [of n] by (induction "dec_digits n") (auto simp: list_all_iff is_digit_def)

lemma str_int_ascii: "list_all (\<lambda>c. c < 128) (str_int i)"
  unfolding str_int_def by (simp add: dec_digits_ascii)

lemma dumps_ascii:
  "wf_val v \<Longrightarrow> list_all (\<lambda>c. c < 128) (dumps v)"
  "wf_vals xs \<Longrightarrow> list_all (\<lambda>c. c < 128) (dumps_list xs)"
  "wf_items kvs \<Longrightarrow> list_all (\<lambda>c. c < 128) (dumps_items kvs)"
  by (induction v and xs and kvs rule: dumps_dumps_list_dumps_items.induct)
     (simp_all add: str_int_ascii encode_basestring_ascii_ascii)

text \<open>Encoding a float-free value with well-formed text, then decoding it.\<close>

lemma encode_decode:
  assumes "wf_val h"
  shows "encode_payment_header h = Inr (b64encode (dumps h))"
    and "decode_payment_header (b64encode (dumps h)) = Inr h"
proof -
  have a: "\<forall>c \<in> set (dumps h). c < 128"
    using dumps_ascii(1) [OF assms] by (simp add: list_all_iff)
  then have b: "\<forall>c \<in> set (dumps h). c < 256" by fastforce
  show "encode_payment_header h = Inr (b64encode (dumps h))"
    unfolding encode_payment_header_def utf8_encode_ascii [OF a] by simp
  show "decode_payment_header (b64encode (dumps h)) = Inr h"
    unfolding decode_payment_header_def b64_roundtrip [OF b]
    by (simp add: utf8_decode_ascii [OF a] loads_dumps [OF assms])
qed

lemma wf_payment_header:
  assumes "wf_text scheme" "wf_text net" "wf_text from_address" "wf_text to_address"
    "wf_text val" "wf_text nonce" "wf_text signature" "wf_text asset_address"
  shows "wf_val (payment_header x402Version scheme net from_address to_address val valid_after
           valid_before nonce signature asset_address)"
  using assms unfolding payment_header_def by (simp add: wf_text_def scalar_def)

section \<open>Properties of the codec\<close>

text \<open>
  C1.  Round trip.  For every payment header with the field set of the specification
  (\<open>x402Version\<close>, \<open>scheme\<close>, \<open>network\<close>, and a payload with \<open>from\<close>, \<open>to\<close>, \<open>value\<close>,
  \<open>validAfter\<close>, \<open>validBefore\<close>, \<open>nonce\<close>, \<open>signature\<close>, \<open>asset\<close>) whose strings are
  well-formed Unicode text (code points that are no surrogates), the encoding at generation
  time succeeds and \<open>decode_payment_header\<close> returns the header unchanged, field for field:
  the strings, among them the decimal string of \<open>value\<close> and the hex strings of \<open>nonce\<close> and
  \<open>signature\<close>, come back as the same sequences of characters, the integers as the same
  integers.
\<close>

theorem credential_roundtrip:
  assumes "wf_text scheme" and "wf_text net" and "wf_text from_address" and "wf_text to_address"
    and "wf_text val" and "wf_text nonce" and "wf_text signature" and "wf_text asset_address"
  shows "case encode_payment_header
                (payment_header x402Version scheme net from_address to_address val valid_after
                   valid_before nonce signature asset_address) of
           Inl e \<Rightarrow> False
         | Inr header_b64 \<Rightarrow>
             decode_payment_header header_b64 =
               Inr (payment_header x402Version scheme net from_address to_address val valid_after
                      valid_before nonce signature asset_address)"
proof -
  have wf: "wf_val (payment_header x402Version scheme net from_address to_address val valid_after
           valid_before nonce signature asset_address)"
    by (rule wf_payment_header [OF assms])
  show ?thesis
    unfolding encode_decode(1) [OF wf] using encode_decode(2) [OF wf] by simp
qed

lemma wf_text_hex: "wf_text (py ''0x'' @ replicate n 102)"
  by (simp add: wf_text_def scalar_def list_all_iff)

theorem credential_roundtrip_witness:
  "wf_text (py ''eip3009'') \<and> wf_text (py ''cronos-testnet'') \<and> wf_text demo_pay_to
   \<and> wf_text demo_asset \<and> wf_text (py ''1000000'') \<and> wf_text (py ''0x'' @ replicate 64 102)
   \<and> wf_text (py ''0x'' @ replicate 130 102)
   \<and> (case encode_payment_header
                (payment_header 1 (py ''eip3009'') (py ''cronos-testnet'') demo_pay_to demo_pay_to
                   (py ''1000000'') 0 1700000300 (py ''0x'' @ replicate 64 102)
                   (py ''0x'' @ replicate 130 102) demo_asset) of
           Inl e \<Rightarrow> False
         | Inr header_b64 \<Rightarrow>
             decode_payment_header header_b64 =
               Inr (payment_header 1 (py ''eip3009'') (py ''cronos-testnet'') demo_pay_to demo_pay_to
                   (py ''1000000'') 0 1700000300 (py ''0x'' @ replicate 64 102)
                   (py ''0x'' @ replicate 130 102) demo_asset))"
proof -
  have a: "wf_text (py ''eip3009'')" and b: "wf_text (py ''cronos-testnet'')"
    and c: "wf_text demo_pay_to" and d: "wf_text demo_asset" and e: "wf_text (py ''1000000'')"
    by (simp_all add: wf_text_def scalar_def demo_pay_to_def demo_asset_def)
  note f = wf_text_hex [of 64] and g = wf_text_hex [of 130]
  from credential_roundtrip [OF a b c c e f g d, of 1 0 1700000300] a b c d e f g
  show ?thesis by blast
qed

(*THMS-END*)

end
